theory Spec2Isabelle
  imports Main "HOL-Library.Sublist"
begin

section \<open>The voice-interaction hook \<open>useHolocron\<close> (src/hooks/useHolocron.tsx)\<close>

text \<open>
  The hook keeps three React state flags and two mutable references, and drives the
  platform's audio, file-system and HTTP interfaces. Those interfaces are not part of the
  repository: each call the hook makes to them is recorded in a trace, and the result of
  each call (resolved with a value, or rejected with an error) is an input of the model.
  A state setter is modelled as an assignment to the flag. The embedding component is
  taken to call the functions of the latest render, so a flag that a function reads from
  its closure (\<open>isAudioAvailable\<close> in \<open>startRecording\<close>) is the current one.

  Each function is given twice. First as a whole, run from its call to its end with
  nothing in between (\<open>startRecording\<close>, \<open>stopRecording\<close>, \<open>sendToAI\<close>): this is what a
  caller sees who waits for one command before issuing the next. Then one resumption at
  a time (\<open>start_call\<close>, \<open>stop_call\<close>, \<open>resume\<close>), so that commands may overlap the way
  \<open>async\<close> functions do. Lemmas \<open>run_start\<close> and \<open>run_stop\<close> show that the two agree.
\<close>

subsection \<open>Data\<close>

type_synonym handle = nat
type_synonym blob = "nat list"

datatype platform = Web | Native

text \<open>The values the code throws, and the rejections it can receive.\<close>

datatype err =
    AudioNotAvailable
  | PermissionDenied
  | NoRecordingURI
  | RecordingNotCompleted
  | ApiUrlNotDefined
  | Base64Failed
  | TypeError
  | AxiosError "nat option" "string option"
  | ExternalError string

datatype 'a outcome = Resolved 'a | Rejected err

text \<open>The argument of \<open>Audio.setAudioModeAsync\<close>.\<close>

record audio_mode =
  allowsRecordingIOS :: bool
  playsInSilentModeIOS :: bool
  staysActiveInBackground :: bool
  shouldDuckAndroid :: bool
  playThroughEarpieceAndroid :: bool

definition recording_mode :: audio_mode where
  "recording_mode = \<lparr> allowsRecordingIOS = True, playsInSilentModeIOS = True,
     staysActiveInBackground = True, shouldDuckAndroid = True,
     playThroughEarpieceAndroid = False \<rparr>"

definition playback_mode :: audio_mode where
  "playback_mode = \<lparr> allowsRecordingIOS = False, playsInSilentModeIOS = True,
     staysActiveInBackground = True, shouldDuckAndroid = True,
     playThroughEarpieceAndroid = False \<rparr>"

text \<open>The \<open>file\<close> part of the multipart form: a blob on the web, a reference by URI
  elsewhere; the form is that part and the \<open>context\<close> string.\<close>

datatype file_part = BlobPart blob string | UriPart string string string

type_synonym form_data = "file_part \<times> string"

text \<open>\<open>FileSystem.EncodingType\<close>.\<close>

datatype encoding = UTF8 | Base64

text \<open>Calls to the outside, in the order they are made.\<close>

datatype call =
    RequestPermissions
  | SetAudioMode audio_mode
  | RecordingCreate
  | StopAndUnload handle
  | GetStatus handle
  | Fetch string
  | ResponseBlob
  | AxiosPost string form_data
  | CreateObjectURL blob
  | AudioPlay
  | ReadAsDataURL blob
  | WriteFile string string encoding
  | SoundUnload handle
  | SoundCreate string
  | SoundPlay handle

text \<open>Lines written to the console: \<open>console.log\<close> and \<open>console.error\<close>.\<close>

datatype entry =
    Log string string
  | LogStatus bool
  | Error string err
  | ErrorStatus "nat option"
  | ErrorData "string option"

text \<open>
  The hook's own state (the three flags and the two references of lines 8 to 12) together
  with what the outside world holds: the console, the trace of calls, the files written
  (path to the text written and the encoding named for it), the \<open>Sound\<close> objects that are loaded, and
  the next fresh object identity. About the outside world the model takes this much for
  granted: \<open>Recording.createAsync\<close> and \<open>Sound.createAsync\<close> return a new object each
  time they resolve; a file holds what \<open>writeAsStringAsync\<close> was given once that call has
  resolved (the bytes are \<open>file_bytes\<close> of it), and is untouched when it rejects; a sound is loaded from the moment
  \<open>Sound.createAsync\<close> resolves until its \<open>unloadAsync\<close> resolves.
\<close>

record hook =
  isRecording :: bool
  isResponding :: bool
  isAudioAvailable :: bool
  recordingRef :: "handle option"
  soundRef :: "handle option"
  console :: "entry list"
  calls :: "call list"
  files :: "string \<rightharpoonup> string \<times> encoding"
  loaded :: "handle list"
  nextHandle :: handle

definition init_hook :: hook where
  "init_hook = \<lparr> isRecording = False, isResponding = False, isAudioAvailable = False,
     recordingRef = None, soundRef = None, console = [], calls = [],
     files = Map.empty, loaded = [], nextHandle = 0 \<rparr>"

text \<open>What is fixed for a run: \<open>Platform.OS\<close>, \<open>process.env.EXPO_PUBLIC_API_URL\<close> and
  \<open>FileSystem.cacheDirectory\<close>.\<close>

record settings =
  os :: platform
  apiUrl :: "string option"
  cacheDirectory :: "string option"

text \<open>The results of the calls one \<open>startRecording\<close> makes.\<close>

record start_env =
  r_permission :: "bool outcome"
  r_recordMode :: "unit outcome"
  r_create :: "unit outcome"

text \<open>The results of the calls one \<open>stopRecording\<close> makes, \<open>sendToAI\<close> included.
  \<open>r_reader\<close> is what the \<open>FileReader\<close> reports for a blob.\<close>

datatype reader_event = LoadEnd "string option" | ReaderError err

record stop_env =
  r_stopAndUnload :: "unit outcome"
  r_getURI :: "string option"
  r_getStatus :: "bool outcome"
  r_fetch :: "unit outcome"
  r_blob :: "blob outcome"
  r_post :: "blob outcome"
  r_audioPlay :: "unit outcome"
  r_reader :: "blob \<Rightarrow> reader_event"
  r_write :: "unit outcome"
  r_unload :: "unit outcome"
  r_soundCreate :: "unit outcome"
  r_playMode :: "unit outcome"
  r_playAsync :: "unit outcome"

subsection \<open>Small operations\<close>

definition console_add :: "entry \<Rightarrow> hook \<Rightarrow> hook" where
  "console_add e s = s\<lparr> console := console s @ [e] \<rparr>"

definition called :: "call \<Rightarrow> hook \<Rightarrow> hook" where
  "called c s = s\<lparr> calls := calls s @ [c] \<rparr>"

text \<open>\<open>!x\<close> on a string that may be null or undefined: true for null and for \<open>''\<close>.\<close>

definition falsy :: "string option \<Rightarrow> bool" where
  "falsy x = (case x of None \<Rightarrow> True | Some v \<Rightarrow> v = [])"

text \<open>A template literal prints null as \<open>null\<close>.\<close>

definition template :: "string option \<Rightarrow> string" where
  "template x = (case x of None \<Rightarrow> ''null'' | Some v \<Rightarrow> v)"

text \<open>\<open>str.split(',')\<close>: the pieces between the commas; never empty.\<close>

fun split_comma :: "string \<Rightarrow> string list" where
  "split_comma [] = [[]]"
| "split_comma (c # cs) =
     (if c = CHR '','' then [] # split_comma cs
      else (case split_comma cs of
              [] \<Rightarrow> [[c]]
            | w # ws \<Rightarrow> (c # w) # ws))"

text \<open>\<open>xs[1]\<close>, undefined when there is no second element.\<close>

definition second :: "'a list \<Rightarrow> 'a option" where
  "second xs = (case xs of _ # y # _ \<Rightarrow> Some y | _ \<Rightarrow> None)"

text \<open>An awaited call inside a \<open>try\<close> block: the call is made, then either its rejection
  is thrown or the rest of the block runs on its value.\<close>

definition await :: "call \<Rightarrow> 'a outcome \<Rightarrow> ('a \<Rightarrow> hook \<Rightarrow> hook \<times> err option)
    \<Rightarrow> hook \<Rightarrow> hook \<times> err option" where
  "await c r k s =
     (case r of
        Rejected e \<Rightarrow> (called c s, Some e)
      | Resolved v \<Rightarrow> k v (called c s))"

subsection \<open>\<open>checkAudioAvailability\<close> (lines 16 to 25)\<close>

definition checkAudioAvailability :: "bool outcome \<Rightarrow> hook \<Rightarrow> hook" where
  "checkAudioAvailability r s =
     (case r of
        Resolved granted \<Rightarrow> (called RequestPermissions s)\<lparr> isAudioAvailable := granted \<rparr>
      | Rejected e \<Rightarrow>
          (console_add (Error ''Audio module not available:'' e)
             (called RequestPermissions s))\<lparr> isAudioAvailable := False \<rparr>)"

subsection \<open>\<open>startRecording\<close> (lines 42 to 71)\<close>

text \<open>The \<open>try\<close> block: the state it leaves and the error it throws, if any.\<close>

definition startRecording_try :: "start_env \<Rightarrow> hook \<Rightarrow> hook \<times> err option" where
  "startRecording_try env s0 =
     (let s1 = console_add (Log ''Starting recording...'' []) s0 in
      if \<not> isAudioAvailable s1 then (s1, Some AudioNotAvailable)
      else await RequestPermissions (r_permission env) (\<lambda>granted s2.
        if \<not> granted then (s2, Some PermissionDenied)
        else await (SetAudioMode recording_mode) (r_recordMode env) (\<lambda>_.
          await RecordingCreate (r_create env) (\<lambda>_ s4.
            (s4\<lparr> recordingRef := Some (nextHandle s4),
                 nextHandle := Suc (nextHandle s4),
                 isRecording := True \<rparr>, None))) s2) s1)"

definition startRecording_catch :: "err \<Rightarrow> hook \<Rightarrow> hook" where
  "startRecording_catch e s = console_add (Error ''Failed to start recording:'' e) s"

text \<open>The whole function: the final state, and the error its promise rejects with
  (\<open>None\<close> when it is fulfilled).\<close>

definition startRecording :: "start_env \<Rightarrow> hook \<Rightarrow> hook \<times> err option" where
  "startRecording env s =
     (case startRecording_try env s of
        (s', None) \<Rightarrow> (s', None)
      | (s', Some e) \<Rightarrow> (startRecording_catch e s', None))"

subsection \<open>\<open>blobToBase64\<close> (lines 187 to 201)\<close>

definition blobToBase64 :: "reader_event \<Rightarrow> string outcome" where
  "blobToBase64 ev =
     (case ev of
        ReaderError e \<Rightarrow> Rejected e
      | LoadEnd result \<Rightarrow>
          (case (case result of None \<Rightarrow> None | Some str \<Rightarrow> second (split_comma str)) of
             None \<Rightarrow> Rejected Base64Failed
           | Some base64data \<Rightarrow>
               if base64data \<noteq> [] then Resolved base64data else Rejected Base64Failed))"

subsection \<open>\<open>sendToAI\<close> (lines 103 to 185)\<close>

definition context_prompt :: string where
  "context_prompt = ''You are a helpful Jedi Holocron assistant. Help Padawans with their studies in the Force.''"

text \<open>Lines 136 to 140: playing the reply on the web.\<close>

definition sendToAI_play_web :: "stop_env \<Rightarrow> blob \<Rightarrow> hook \<Rightarrow> hook \<times> err option" where
  "sendToAI_play_web env data s =
     await AudioPlay (r_audioPlay env) (\<lambda>_ s'. (s', None)) (called (CreateObjectURL data) s)"

text \<open>Lines 157 to 174: loading and playing the cached reply.\<close>

definition sendToAI_load :: "stop_env \<Rightarrow> string \<Rightarrow> hook \<Rightarrow> hook \<times> err option" where
  "sendToAI_load env fileUri s =
     await (SoundCreate fileUri) (r_soundCreate env) (\<lambda>_ s1.
       (let sound = nextHandle s1;
            s2 = s1\<lparr> loaded := loaded s1 @ [sound], nextHandle := Suc sound,
                     soundRef := Some sound \<rparr>
        in await (SetAudioMode playback_mode) (r_playMode env) (\<lambda>_.
             await (SoundPlay sound) (r_playAsync env) (\<lambda>_ s4. (s4, None))) s2)) s"

text \<open>Lines 142 to 175: the reply on a native platform.\<close>

definition sendToAI_play_native :: "settings \<Rightarrow> stop_env \<Rightarrow> blob \<Rightarrow> hook \<Rightarrow> hook \<times> err option" where
  "sendToAI_play_native cfg env data s =
     await (ReadAsDataURL data) (blobToBase64 (r_reader env data)) (\<lambda>base64data s1.
       (let fileUri = template (cacheDirectory cfg) @ ''response.mp3'' in
        await (WriteFile fileUri base64data Base64) (r_write env) (\<lambda>_ s2.
          (let s3 = s2\<lparr> files := (files s2)(fileUri \<mapsto> (base64data, Base64)) \<rparr> in
           case soundRef s3 of
             None \<Rightarrow> sendToAI_load env fileUri s3
           | Some old \<Rightarrow>
               await (SoundUnload old) (r_unload env) (\<lambda>_ s4.
                 sendToAI_load env fileUri (s4\<lparr> loaded := removeAll old (loaded s4) \<rparr>)) s3)) s1)) s"

text \<open>Lines 127 to 175: the request and what follows it.\<close>

definition sendToAI_post :: "settings \<Rightarrow> stop_env \<Rightarrow> string \<Rightarrow> file_part \<Rightarrow> hook \<Rightarrow> hook \<times> err option" where
  "sendToAI_post cfg env url part s =
     await (AxiosPost (url @ ''/talk'') (part, context_prompt)) (r_post env) (\<lambda>data s1.
       if os cfg = Web then sendToAI_play_web env data s1
       else sendToAI_play_native cfg env data s1) s"

text \<open>The \<open>try\<close> block.\<close>

definition sendToAI_try :: "settings \<Rightarrow> stop_env \<Rightarrow> string \<Rightarrow> hook \<Rightarrow> hook \<times> err option" where
  "sendToAI_try cfg env uri s0 =
     (if falsy (apiUrl cfg) then (s0, Some ApiUrlNotDefined)
      else
        (let url = template (apiUrl cfg);
             s1 = console_add (Log ''Sending to API:'' (url @ ''/talk'')) s0
         in if os cfg = Web then
              await (Fetch uri) (r_fetch env) (\<lambda>_.
                await ResponseBlob (r_blob env) (\<lambda>b.
                  sendToAI_post cfg env url (BlobPart b ''recording.mp3''))) s1
            else sendToAI_post cfg env url (UriPart uri ''recording.mp3'' ''audio/mpeg'') s1))"

definition isAxiosError :: "err \<Rightarrow> bool" where
  "isAxiosError e = (case e of AxiosError _ _ \<Rightarrow> True | _ \<Rightarrow> False)"

text \<open>\<open>err.response?.status\<close> and \<open>err.response?.data\<close>.\<close>

definition response_status :: "err \<Rightarrow> nat option" where
  "response_status e = (case e of AxiosError status _ \<Rightarrow> status | _ \<Rightarrow> None)"

definition response_data :: "err \<Rightarrow> string option" where
  "response_data e = (case e of AxiosError _ body \<Rightarrow> body | _ \<Rightarrow> None)"

definition sendToAI_catch :: "err \<Rightarrow> hook \<Rightarrow> hook" where
  "sendToAI_catch e s =
     (let s1 = console_add (Error ''Failed to communicate with AI:'' e) s in
      if isAxiosError e
      then console_add (ErrorData (response_data e))
             (console_add (ErrorStatus (response_status e)) s1)
      else s1)"

text \<open>\<open>catch\<close> (entered when the \<open>try\<close> block has thrown) and \<open>finally\<close>, which clears
  \<open>isResponding\<close> on every path.\<close>

definition sendToAI_end :: "hook \<times> err option \<Rightarrow> hook" where
  "sendToAI_end p =
     (case p of
        (s', None) \<Rightarrow> s'\<lparr> isResponding := False \<rparr>
      | (s', Some e) \<Rightarrow> (sendToAI_catch e s')\<lparr> isResponding := False \<rparr>)"

definition sendToAI :: "settings \<Rightarrow> stop_env \<Rightarrow> string \<Rightarrow> hook \<Rightarrow> hook \<times> err option" where
  "sendToAI cfg env uri s = (sendToAI_end (sendToAI_try cfg env uri s), None)"

subsection \<open>\<open>stopRecording\<close> (lines 73 to 101)\<close>

text \<open>Lines 95 and 96.\<close>

definition stopRecording_send :: "settings \<Rightarrow> stop_env \<Rightarrow> string \<Rightarrow> hook \<Rightarrow> hook \<times> err option" where
  "stopRecording_send cfg env uri s = sendToAI cfg env uri (s\<lparr> isResponding := True \<rparr>)"

text \<open>Lines 79 to 96: after \<open>stopAndUnloadAsync\<close> has resolved. The reference is read again
  where the code reads it again.\<close>

definition stopRecording_finalize :: "settings \<Rightarrow> stop_env \<Rightarrow> hook \<Rightarrow> hook \<times> err option" where
  "stopRecording_finalize cfg env s =
     (case recordingRef s of
        None \<Rightarrow> (s, Some TypeError)
      | Some rec \<Rightarrow>
          if falsy (r_getURI env) then (s, Some NoRecordingURI)
          else
            (let uri = template (r_getURI env) in
             if os cfg \<noteq> Web then
               await (GetStatus rec) (r_getStatus env) (\<lambda>done s1.
                 (let s2 = console_add (Log ''Recording URI:'' uri)
                             (console_add (LogStatus done) s1)
                  in if \<not> done then (s2, Some RecordingNotCompleted)
                     else stopRecording_send cfg env uri s2)) s
             else stopRecording_send cfg env uri
                    (console_add (Log ''Recording URI (web):'' uri) s)))"

definition stopRecording_try :: "settings \<Rightarrow> stop_env \<Rightarrow> hook \<Rightarrow> hook \<times> err option" where
  "stopRecording_try cfg env s0 =
     (let s1 = s0\<lparr> isRecording := False \<rparr> in
      case recordingRef s1 of
        None \<Rightarrow> (s1, None)
      | Some rec \<Rightarrow>
          await (StopAndUnload rec) (r_stopAndUnload env) (\<lambda>_.
            stopRecording_finalize cfg env) s1)"

definition stopRecording_catch :: "err \<Rightarrow> hook \<Rightarrow> hook" where
  "stopRecording_catch e s =
     (console_add (Error ''Failed to stop recording:'' e) s)\<lparr> isResponding := False \<rparr>"

definition stopRecording :: "settings \<Rightarrow> stop_env \<Rightarrow> hook \<Rightarrow> hook \<times> err option" where
  "stopRecording cfg env s =
     (case stopRecording_try cfg env s of
        (s', None) \<Rightarrow> (s', None)
      | (s', Some e) \<Rightarrow> (stopRecording_catch e s', None))"

section \<open>The asynchronous functions, one resumption at a time\<close>

text \<open>
  An \<open>async\<close> function runs until its next \<open>await\<close>, then gives control back; other
  functions of the hook may run before it is resumed with the awaited result. A task is a
  suspended function: the \<open>await\<close> it is waiting at, the results of its calls, and the
  local variables it still needs. \<open>stopRecording\<close> does nothing after its
  \<open>await sendToAI(uri)\<close>, which never rejects, so its task ends where \<open>sendToAI\<close> ends.
  The cleanup that the effect registers for unmounting is not modelled.
\<close>

datatype task =
    Probe_perm "bool outcome"
  | Start_perm start_env
  | Start_mode start_env
  | Start_create start_env
  | Stop_unload stop_env
  | Stop_status stop_env string
  | Send_fetch stop_env string string
  | Send_blob stop_env string
  | Send_post stop_env
  | Send_audioPlay stop_env
  | Send_reader stop_env blob
  | Send_write stop_env string string
  | Send_unload stop_env string handle
  | Send_create stop_env string
  | Send_playMode stop_env handle
  | Send_playAsync stop_env handle

type_synonym progress = "hook \<times> task option"

text \<open>The exits: the \<open>catch\<close> of \<open>startRecording\<close>, the \<open>catch\<close> of \<open>stopRecording\<close>, and
  the \<open>catch\<close> and \<open>finally\<close> of \<open>sendToAI\<close>.\<close>

definition fail_start :: "err \<Rightarrow> hook \<Rightarrow> progress" where
  "fail_start e s = (startRecording_catch e s, None)"

definition fail_stop :: "err \<Rightarrow> hook \<Rightarrow> progress" where
  "fail_stop e s = (stopRecording_catch e s, None)"

definition fail_send :: "err \<Rightarrow> hook \<Rightarrow> progress" where
  "fail_send e s = ((sendToAI_catch e s)\<lparr> isResponding := False \<rparr>, None)"

definition finish_send :: "hook \<Rightarrow> progress" where
  "finish_send s = (s\<lparr> isResponding := False \<rparr>, None)"

text \<open>Calling \<open>startRecording\<close>: lines 44 to 50, up to the first \<open>await\<close>.\<close>

definition start_call :: "start_env \<Rightarrow> hook \<Rightarrow> progress" where
  "start_call env s0 =
     (let s1 = console_add (Log ''Starting recording...'' []) s0 in
      if \<not> isAudioAvailable s1 then fail_start AudioNotAvailable s1
      else (called RequestPermissions s1, Some (Start_perm env)))"

text \<open>Line 127: the request is sent.\<close>

definition send_post :: "stop_env \<Rightarrow> string \<Rightarrow> file_part \<Rightarrow> hook \<Rightarrow> progress" where
  "send_post env url part s =
     (called (AxiosPost (url @ ''/talk'') (part, context_prompt)) s, Some (Send_post env))"

text \<open>Calling \<open>sendToAI\<close>: lines 105 to 127, up to the first \<open>await\<close>.\<close>

definition send_call :: "settings \<Rightarrow> stop_env \<Rightarrow> string \<Rightarrow> hook \<Rightarrow> progress" where
  "send_call cfg env uri s0 =
     (if falsy (apiUrl cfg) then fail_send ApiUrlNotDefined s0
      else
        (let url = template (apiUrl cfg);
             s1 = console_add (Log ''Sending to API:'' (url @ ''/talk'')) s0
         in if os cfg = Web then (called (Fetch uri) s1, Some (Send_fetch env uri url))
            else send_post env url (UriPart uri ''recording.mp3'' ''audio/mpeg'') s1))"

text \<open>Calling \<open>stopRecording\<close>: lines 75 to 78.\<close>

definition stop_call :: "stop_env \<Rightarrow> hook \<Rightarrow> progress" where
  "stop_call env s0 =
     (let s1 = s0\<lparr> isRecording := False \<rparr> in
      case recordingRef s1 of
        None \<Rightarrow> (s1, None)
      | Some rec \<Rightarrow> (called (StopAndUnload rec) s1, Some (Stop_unload env)))"

text \<open>Resuming a task with the result of the call it awaited.\<close>

fun resume :: "settings \<Rightarrow> task \<Rightarrow> hook \<Rightarrow> progress" where
  "resume cfg (Probe_perm r) s =
     (case r of
        Resolved granted \<Rightarrow> (s\<lparr> isAudioAvailable := granted \<rparr>, None)
      | Rejected e \<Rightarrow>
          ((console_add (Error ''Audio module not available:'' e) s)
              \<lparr> isAudioAvailable := False \<rparr>, None))"
| "resume cfg (Start_perm env) s =
     (case r_permission env of
        Rejected e \<Rightarrow> fail_start e s
      | Resolved granted \<Rightarrow>
          if \<not> granted then fail_start PermissionDenied s
          else (called (SetAudioMode recording_mode) s, Some (Start_mode env)))"
| "resume cfg (Start_mode env) s =
     (case r_recordMode env of
        Rejected e \<Rightarrow> fail_start e s
      | Resolved _ \<Rightarrow> (called RecordingCreate s, Some (Start_create env)))"
| "resume cfg (Start_create env) s =
     (case r_create env of
        Rejected e \<Rightarrow> fail_start e s
      | Resolved _ \<Rightarrow>
          (s\<lparr> recordingRef := Some (nextHandle s),
              nextHandle := Suc (nextHandle s),
              isRecording := True \<rparr>, None))"
| "resume cfg (Stop_unload env) s =
     (case r_stopAndUnload env of
        Rejected e \<Rightarrow> fail_stop e s
      | Resolved _ \<Rightarrow>
          (case recordingRef s of
             None \<Rightarrow> fail_stop TypeError s
           | Some rec \<Rightarrow>
               if falsy (r_getURI env) then fail_stop NoRecordingURI s
               else
                 (let uri = template (r_getURI env) in
                  if os cfg \<noteq> Web then (called (GetStatus rec) s, Some (Stop_status env uri))
                  else send_call cfg env uri
                         ((console_add (Log ''Recording URI (web):'' uri) s)
                             \<lparr> isResponding := True \<rparr>))))"
| "resume cfg (Stop_status env uri) s =
     (case r_getStatus env of
        Rejected e \<Rightarrow> fail_stop e s
      | Resolved done \<Rightarrow>
          (let s2 = console_add (Log ''Recording URI:'' uri) (console_add (LogStatus done) s)
           in if \<not> done then fail_stop RecordingNotCompleted s2
              else send_call cfg env uri (s2\<lparr> isResponding := True \<rparr>)))"
| "resume cfg (Send_fetch env uri url) s =
     (case r_fetch env of
        Rejected e \<Rightarrow> fail_send e s
      | Resolved _ \<Rightarrow> (called ResponseBlob s, Some (Send_blob env url)))"
| "resume cfg (Send_blob env url) s =
     (case r_blob env of
        Rejected e \<Rightarrow> fail_send e s
      | Resolved b \<Rightarrow> send_post env url (BlobPart b ''recording.mp3'') s)"
| "resume cfg (Send_post env) s =
     (case r_post env of
        Rejected e \<Rightarrow> fail_send e s
      | Resolved data \<Rightarrow>
          if os cfg = Web
          then (called AudioPlay (called (CreateObjectURL data) s), Some (Send_audioPlay env))
          else (called (ReadAsDataURL data) s, Some (Send_reader env data)))"
| "resume cfg (Send_audioPlay env) s =
     (case r_audioPlay env of
        Rejected e \<Rightarrow> fail_send e s
      | Resolved _ \<Rightarrow> finish_send s)"
| "resume cfg (Send_reader env data) s =
     (case blobToBase64 (r_reader env data) of
        Rejected e \<Rightarrow> fail_send e s
      | Resolved base64data \<Rightarrow>
          (let fileUri = template (cacheDirectory cfg) @ ''response.mp3'' in
           (called (WriteFile fileUri base64data Base64) s,
            Some (Send_write env fileUri base64data))))"
| "resume cfg (Send_write env fileUri base64data) s =
     (case r_write env of
        Rejected e \<Rightarrow> fail_send e s
      | Resolved _ \<Rightarrow>
          (let s3 = s\<lparr> files := (files s)(fileUri \<mapsto> (base64data, Base64)) \<rparr> in
           case soundRef s3 of
             None \<Rightarrow> (called (SoundCreate fileUri) s3, Some (Send_create env fileUri))
           | Some old \<Rightarrow> (called (SoundUnload old) s3, Some (Send_unload env fileUri old))))"
| "resume cfg (Send_unload env fileUri old) s =
     (case r_unload env of
        Rejected e \<Rightarrow> fail_send e s
      | Resolved _ \<Rightarrow>
          (called (SoundCreate fileUri) (s\<lparr> loaded := removeAll old (loaded s) \<rparr>),
           Some (Send_create env fileUri)))"
| "resume cfg (Send_create env fileUri) s =
     (case r_soundCreate env of
        Rejected e \<Rightarrow> fail_send e s
      | Resolved _ \<Rightarrow>
          (let sound = nextHandle s;
               s2 = s\<lparr> loaded := loaded s @ [sound], nextHandle := Suc sound,
                       soundRef := Some sound \<rparr>
           in (called (SetAudioMode playback_mode) s2, Some (Send_playMode env sound))))"
| "resume cfg (Send_playMode env sound) s =
     (case r_playMode env of
        Rejected e \<Rightarrow> fail_send e s
      | Resolved _ \<Rightarrow> (called (SoundPlay sound) s, Some (Send_playAsync env sound)))"
| "resume cfg (Send_playAsync env sound) s =
     (case r_playAsync env of
        Rejected e \<Rightarrow> fail_send e s
      | Resolved _ \<Rightarrow> finish_send s)"

subsection \<open>The hook among its callers\<close>

text \<open>
  A configuration is the state and the tasks that are suspended. The embedding component
  may call \<open>startRecording\<close> or \<open>stopRecording\<close>, and the event loop may resume any
  suspended task. Mounting runs the effect of lines 15 to 40, which calls
  \<open>checkAudioAvailability\<close>.
\<close>

record config =
  st :: hook
  tasks :: "task list"

datatype event = CallStart start_env | CallStop stop_env | Resume nat

definition suspended :: "task option \<Rightarrow> task list" where
  "suspended t = (case t of None \<Rightarrow> [] | Some x \<Rightarrow> [x])"

definition mount :: "bool outcome \<Rightarrow> config" where
  "mount r = \<lparr> st = called RequestPermissions init_hook, tasks = [Probe_perm r] \<rparr>"

fun step :: "settings \<Rightarrow> event \<Rightarrow> config \<Rightarrow> config" where
  "step cfg (CallStart env) c =
     (case start_call env (st c) of
        (s, t) \<Rightarrow> \<lparr> st = s, tasks = tasks c @ suspended t \<rparr>)"
| "step cfg (CallStop env) c =
     (case stop_call env (st c) of
        (s, t) \<Rightarrow> \<lparr> st = s, tasks = tasks c @ suspended t \<rparr>)"
| "step cfg (Resume i) c =
     (if i < length (tasks c) then
        (case resume cfg (tasks c ! i) (st c) of
           (s, t) \<Rightarrow> \<lparr> st = s, tasks = take i (tasks c) @ suspended t @ drop (Suc i) (tasks c) \<rparr>)
      else c)"

text \<open>The configurations that can be reached when the callers keep to a policy: which
  event they may cause in which configuration.\<close>

inductive reach :: "settings \<Rightarrow> (config \<Rightarrow> event \<Rightarrow> bool) \<Rightarrow> config \<Rightarrow> bool"
  for cfg :: settings and pol :: "config \<Rightarrow> event \<Rightarrow> bool" where
  reach_mount: "reach cfg pol (mount r)"
| reach_step: "reach cfg pol c \<Longrightarrow> pol c e \<Longrightarrow> reach cfg pol (step cfg e c)"

fun exec :: "settings \<Rightarrow> event list \<Rightarrow> config \<Rightarrow> config" where
  "exec cfg [] c = c"
| "exec cfg (e # es) c = exec cfg es (step cfg e c)"

fun is_probe :: "task \<Rightarrow> bool" where
  "is_probe (Probe_perm _) = True"
| "is_probe _ = False"

fun is_start :: "task \<Rightarrow> bool" where
  "is_start (Start_perm _) = True"
| "is_start (Start_mode _) = True"
| "is_start (Start_create _) = True"
| "is_start _ = False"

definition is_stop :: "task \<Rightarrow> bool" where
  "is_stop t = (\<not> is_probe t \<and> \<not> is_start t)"

text \<open>No policy at all; starts and stops kept apart (\<open>startRecording\<close> is not called
  while a \<open>stopRecording\<close> is suspended, nor \<open>stopRecording\<close> while a \<open>startRecording\<close>
  is); and one \<open>stopRecording\<close> at a time.\<close>

definition anytime :: "config \<Rightarrow> event \<Rightarrow> bool" where
  "anytime c e = True"

definition apart :: "config \<Rightarrow> event \<Rightarrow> bool" where
  "apart c e =
     (case e of
        CallStart _ \<Rightarrow> list_all (\<lambda>t. \<not> is_stop t) (tasks c)
      | CallStop _ \<Rightarrow> list_all (\<lambda>t. \<not> is_start t) (tasks c)
      | Resume _ \<Rightarrow> True)"

definition one_stop_at_a_time :: "config \<Rightarrow> event \<Rightarrow> bool" where
  "one_stop_at_a_time c e =
     (case e of CallStop _ \<Rightarrow> list_all (\<lambda>t. \<not> is_stop t) (tasks c) | _ \<Rightarrow> True)"

text \<open>
  Three properties of a configuration, each kept by every step its policy allows.
  The first holds whatever the callers do: while capture is unavailable there is no
  session and nothing but the probe is suspended; while there is no session, no flag is
  set, no object has been created and no \<open>stopRecording\<close> is suspended; once capture is
  available the probe is over; and there is never more than one probe.
\<close>

definition settled :: "config \<Rightarrow> bool" where
  "settled c =
     ((\<not> isAudioAvailable (st c) \<longrightarrow>
         recordingRef (st c) = None \<and> (\<forall>t \<in> set (tasks c). is_probe t)) \<and>
      (recordingRef (st c) = None \<longrightarrow>
         \<not> isRecording (st c) \<and> \<not> isResponding (st c) \<and> nextHandle (st c) = 0 \<and>
         (\<forall>t \<in> set (tasks c). \<not> is_stop t)) \<and>
      (isAudioAvailable (st c) \<longrightarrow> (\<forall>t \<in> set (tasks c). \<not> is_probe t)) \<and>
      length (filter is_probe (tasks c)) \<le> 1)"

text \<open>With starts and stops kept apart: while a \<open>stopRecording\<close> is suspended
  \<open>isRecording\<close> is false and no \<open>startRecording\<close> is suspended, and while none is
  suspended \<open>isResponding\<close> is false.\<close>

definition exclusive :: "config \<Rightarrow> bool" where
  "exclusive c =
     ((\<forall>t \<in> set (tasks c). is_stop t \<longrightarrow>
         \<not> isRecording (st c) \<and> (\<forall>u \<in> set (tasks c). \<not> is_start u)) \<and>
      ((\<forall>t \<in> set (tasks c). \<not> is_stop t) \<longrightarrow> \<not> isResponding (st c)))"

text \<open>With one \<open>stopRecording\<close> at a time: the only \<open>Sound\<close> that can be loaded is the one
  in \<open>soundRef\<close>; a suspended \<open>unloadAsync\<close> is that of the sound in \<open>soundRef\<close>; and while
  \<open>Sound.createAsync\<close> is awaited nothing is loaded.\<close>

definition single_sound :: "config \<Rightarrow> bool" where
  "single_sound c =
     (length (filter is_stop (tasks c)) \<le> 1 \<and>
      set (loaded (st c)) \<subseteq> set_option (soundRef (st c)) \<and>
      distinct (loaded (st c)) \<and>
      (\<forall>env f old. Send_unload env f old \<in> set (tasks c) \<longrightarrow> soundRef (st c) = Some old) \<and>
      (\<forall>env f. Send_create env f \<in> set (tasks c) \<longrightarrow> loaded (st c) = []))"

text \<open>Running one task to its end with nothing in between.\<close>

fun rank :: "task \<Rightarrow> nat" where
  "rank (Probe_perm _) = 1"
| "rank (Start_perm _) = 3"
| "rank (Start_mode _) = 2"
| "rank (Start_create _) = 1"
| "rank (Stop_unload _) = 14"
| "rank (Stop_status _ _) = 13"
| "rank (Send_fetch _ _ _) = 12"
| "rank (Send_blob _ _) = 11"
| "rank (Send_post _) = 10"
| "rank (Send_audioPlay _) = 1"
| "rank (Send_reader _ _) = 9"
| "rank (Send_write _ _ _) = 8"
| "rank (Send_unload _ _ _) = 7"
| "rank (Send_create _ _) = 6"
| "rank (Send_playMode _ _) = 5"
| "rank (Send_playAsync _ _) = 4"

function run :: "settings \<Rightarrow> progress \<Rightarrow> hook" where
  "run cfg (s, None) = s"
| "run cfg (s, Some t) = run cfg (resume cfg t s)"
  by pat_completeness auto
termination
  apply (relation "measure (\<lambda>(cfg, p). case snd p of None \<Rightarrow> 0 | Some t \<Rightarrow> rank t)")
   apply simp
  subgoal for cfg s t
    by (cases t)
       (auto simp: fail_start_def fail_stop_def fail_send_def finish_send_def send_call_def
          send_post_def Let_def split: outcome.splits if_splits option.splits)
  done

section \<open>The platform's base64\<close>

text \<open>
  Two platform behaviours the hook relies on and does not contain: a \<open>FileReader\<close> reports
  a blob as a data URL, \<open>data:\<close>, the media type, \<open>;base64,\<close> and the base64 text of the
  bytes (RFC 4648, with padding); and a file written with \<open>EncodingType.Base64\<close> holds the
  bytes that the text decodes to. Bytes are numbers below 256.
\<close>

definition alphabet :: string where
  "alphabet = ''ABCDEFGHIJKLMNOPQRSTUVWXYZabcdefghijklmnopqrstuvwxyz0123456789+/''"

definition sextet :: "nat \<Rightarrow> char" where
  "sextet n = alphabet ! (n mod 64)"

fun index_of :: "'a \<Rightarrow> 'a list \<Rightarrow> nat option" where
  "index_of x [] = None"
| "index_of x (y # ys) = (if x = y then Some 0 else map_option Suc (index_of x ys))"

definition unsextet :: "char \<Rightarrow> nat option" where
  "unsextet c = index_of c alphabet"

fun base64 :: "nat list \<Rightarrow> string" where
  "base64 [] = []"
| "base64 [a] = [sextet (a div 4), sextet ((a mod 4) * 16), CHR ''='', CHR ''='']"
| "base64 [a, b] =
     [sextet (a div 4), sextet ((a mod 4) * 16 + b div 16), sextet ((b mod 16) * 4), CHR ''='']"
| "base64 (a # b # c # bs) =
     sextet (a div 4) # sextet ((a mod 4) * 16 + b div 16)
       # sextet ((b mod 16) * 4 + c div 64) # sextet (c mod 64) # base64 bs"

fun unbase64 :: "string \<Rightarrow> nat list option" where
  "unbase64 [] = Some []"
| "unbase64 (c1 # c2 # c3 # c4 # cs) =
     (case (unsextet c1, unsextet c2) of
        (Some x, Some y) \<Rightarrow>
          if c3 = CHR ''='' \<and> c4 = CHR ''='' \<and> cs = [] then Some [x * 4 + y div 16]
          else
            (case unsextet c3 of
               None \<Rightarrow> None
             | Some z \<Rightarrow>
                 if c4 = CHR ''='' \<and> cs = []
                 then Some [x * 4 + y div 16, (y mod 16) * 16 + z div 4]
                 else
                   (case unsextet c4 of
                      None \<Rightarrow> None
                    | Some w \<Rightarrow>
                        map_option
                          (\<lambda>bs. (x * 4 + y div 16) # ((y mod 16) * 16 + z div 4)
                                  # ((z mod 4) * 64 + w) # bs)
                          (unbase64 cs)))
      | _ \<Rightarrow> None)"
| "unbase64 _ = None"

definition data_url :: "string \<Rightarrow> blob \<Rightarrow> string" where
  "data_url mime bytes = ''data:'' @ mime @ '';base64'' @ CHR '','' # base64 bytes"

text \<open>The bytes of a file, from the text written and its encoding.\<close>

definition file_bytes :: "string \<times> encoding \<Rightarrow> nat list option" where
  "file_bytes f =
     (case f of
        (text, Base64) \<Rightarrow> unbase64 text
      | (text, UTF8) \<Rightarrow> Some (map of_char text))"

section \<open>Observations and concrete runs\<close>

text \<open>The calls that go to the network.\<close>

fun is_request :: "call \<Rightarrow> bool" where
  "is_request (Fetch _) = True"
| "is_request ResponseBlob = True"
| "is_request (AxiosPost _ _) = True"
| "is_request _ = False"

text \<open>The calls that write a file.\<close>

fun is_write :: "call \<Rightarrow> bool" where
  "is_write (WriteFile _ _ _) = True"
| "is_write _ = False"

text \<open>Console lines written by \<open>console.error\<close> with a caught error.\<close>

fun is_error :: "entry \<Rightarrow> bool" where
  "is_error (Error _ _) = True"
| "is_error _ = False"

text \<open>The lines a run has added to the console that report a caught error.\<close>

definition new_errors :: "hook \<Rightarrow> hook \<Rightarrow> entry list" where
  "new_errors s s' = filter is_error (drop (length (console s)) (console s'))"

text \<open>Playback has been started: the call is the \<open>play\<close> of the web audio element or the
  \<open>playAsync\<close> of the sound, and it resolved.\<close>

definition playback_started :: "stop_env \<Rightarrow> call \<Rightarrow> bool" where
  "playback_started env c =
     (case c of
        AudioPlay \<Rightarrow> r_audioPlay env = Resolved ()
      | SoundPlay _ \<Rightarrow> r_playAsync env = Resolved ()
      | _ \<Rightarrow> False)"

text \<open>Settings and results used to run the model on concrete inputs.\<close>

definition native_cfg :: settings where
  "native_cfg = \<lparr> os = Native, apiUrl = Some ''http://api'', cacheDirectory = Some ''cache/'' \<rparr>"

definition web_cfg :: settings where
  "web_cfg = \<lparr> os = Web, apiUrl = Some ''http://api'', cacheDirectory = None \<rparr>"

definition start_ok :: start_env where
  "start_ok = \<lparr> r_permission = Resolved True, r_recordMode = Resolved (),
     r_create = Resolved () \<rparr>"

definition stop_ok :: stop_env where
  "stop_ok = \<lparr> r_stopAndUnload = Resolved (), r_getURI = Some ''rec'',
     r_getStatus = Resolved True, r_fetch = Resolved (), r_blob = Resolved [1, 2],
     r_post = Resolved [7, 8], r_audioPlay = Resolved (),
     r_reader = (\<lambda>b. LoadEnd (Some (data_url ''audio/mpeg'' b))),
     r_write = Resolved (), r_unload = Resolved (), r_soundCreate = Resolved (),
     r_playMode = Resolved (), r_playAsync = Resolved () \<rparr>"

text \<open>The state once the probe has been granted and a first \<open>startRecording\<close> has
  succeeded.\<close>

definition capturing_hook :: hook where
  "capturing_hook = fst (startRecording start_ok (checkAudioAvailability (Resolved True) init_hook))"

text \<open>A schedule keeps to a policy when each of its events is allowed where it happens.\<close>

fun allowed :: "(config \<Rightarrow> event \<Rightarrow> bool) \<Rightarrow> settings \<Rightarrow> event list \<Rightarrow> config \<Rightarrow> bool" where
  "allowed pol cfg [] c = True"
| "allowed pol cfg (e # es) c = (pol c e \<and> allowed pol cfg es (step cfg e c))"

text \<open>Concrete configurations on a native platform: the probe was refused; the probe
  was granted and a first capture is running; the capture was stopped and its request
  is awaited; and \<open>startRecording\<close> was called again, and ran to its end, during that
  wait.\<close>

definition unavailable_config :: config where
  "unavailable_config = exec native_cfg [Resume 0] (mount (Resolved False))"

definition capturing_config :: config where
  "capturing_config =
     exec native_cfg [Resume 0, CallStart start_ok, Resume 0, Resume 0, Resume 0]
       (mount (Resolved True))"

definition awaiting_config :: config where
  "awaiting_config = exec native_cfg [CallStop stop_ok, Resume 0, Resume 0] capturing_config"

definition overlapped_config :: config where
  "overlapped_config =
     exec native_cfg [CallStart start_ok, Resume 1, Resume 1, Resume 1] awaiting_config"

text \<open>The second interaction of \<open>overlapped_config\<close> stopped in its turn, and both
  interactions resumed until each has had its \<open>Sound.createAsync\<close> resolved.\<close>

definition two_sounds_config :: config where
  "two_sounds_config =
     exec native_cfg
       [CallStop stop_ok, Resume 1, Resume 1, Resume 0, Resume 0, Resume 0,
        Resume 1, Resume 1, Resume 1, Resume 0, Resume 1]
       overlapped_config"

text \<open>A first interaction run to its end on a native platform, and a second one after
  it: started again, stopped and resumed until \<open>Sound.createAsync\<close> is awaited, and
  resumed to its end.\<close>

definition played_config :: config where
  "played_config =
     exec native_cfg
       [CallStop stop_ok, Resume 0, Resume 0, Resume 0, Resume 0, Resume 0, Resume 0,
        Resume 0, Resume 0]
       capturing_config"

definition recapturing_config :: config where
  "recapturing_config =
     exec native_cfg [CallStart start_ok, Resume 0, Resume 0, Resume 0] played_config"

definition reloading_config :: config where
  "reloading_config =
     exec native_cfg
       [CallStop stop_ok, Resume 0, Resume 0, Resume 0, Resume 0, Resume 0, Resume 0]
       recapturing_config"

definition replayed_config :: config where
  "replayed_config = exec native_cfg [Resume 0, Resume 0, Resume 0] reloading_config"

section \<open>Basic facts\<close>

subsection \<open>Encoding and decoding\<close>

lemma index_of_nth:
  "distinct xs \<Longrightarrow> n < length xs \<Longrightarrow> index_of (xs ! n) xs = Some n"
proof (induction xs arbitrary: n)
  case Nil
  then show ?case by simp
next
  case (Cons y ys)
  show ?case
  proof (cases n)
    case 0
    then show ?thesis by simp
  next
    case (Suc m)
    with Cons.prems have "ys ! m \<in> set ys" "y \<notin> set ys"
      by simp_all
    then have "ys ! m \<noteq> y"
      by auto
    with Cons Suc show ?thesis
      by simp
  qed
qed

lemma alphabet_length: "length alphabet = 64"
  by (simp add: alphabet_def)

lemma alphabet_distinct: "distinct alphabet"
  by (simp add: alphabet_def)

lemma alphabet_plain: "CHR ''='' \<notin> set alphabet" "CHR '','' \<notin> set alphabet"
  by (simp_all add: alphabet_def)

lemma sextet_in: "sextet n \<in> set alphabet"
  by (simp add: sextet_def alphabet_length)

lemma sextet_plain [simp]: "sextet n \<noteq> CHR ''=''" "sextet n \<noteq> CHR '',''"
  using sextet_in [of n] alphabet_plain by auto

lemma unsextet_sextet [simp]: "n < 64 \<Longrightarrow> unsextet (sextet n) = Some n"
  by (simp add: unsextet_def sextet_def index_of_nth alphabet_distinct alphabet_length)



lemma sextet_plain' [simp]: "CHR ''='' \<noteq> sextet n" "CHR '','' \<noteq> sextet n"
  by (metis sextet_plain(1)) (metis sextet_plain(2))

lemma pack_div_mod:
  fixes r t k :: nat
  assumes "t < k"
  shows "(r * k + t) div k = r" "(r * k + t) mod k = t"
  using assms by simp_all

lemma byte_bounds:
  fixes a :: nat
  assumes "a < 256"
  shows "a div 4 < 64" "a div 16 < 16" "a div 64 < 4"
  using assms by simp_all

lemma sextet_bounds:
  fixes a b c :: nat
  assumes "b < 256" "c < 256"
  shows "(a mod 4) * 16 + b div 16 < 64" "(b mod 16) * 4 + c div 64 < 64"
    "(a mod 4) * 16 < 64" "(b mod 16) * 4 < 64" "c mod 64 < 64"
proof -
  have "a mod 4 < 4" "b mod 16 < 16" "b div 16 < 16" "c div 64 < 4"
    using assms by simp_all
  then show "(a mod 4) * 16 + b div 16 < 64" "(b mod 16) * 4 + c div 64 < 64"
    "(a mod 4) * 16 < 64" "(b mod 16) * 4 < 64"
    by linarith+
  show "c mod 64 < 64" by simp
qed

lemma unbase64_base64:
  "\<forall>b \<in> set bs. b < 256 \<Longrightarrow> unbase64 (base64 bs) = Some bs"
proof (induction bs rule: base64.induct)
  case 1
  then show ?case by simp
next
  case (2 a)
  then have a: "a < 256" by simp
  have "(a mod 4 * 16) div 16 = a mod 4"
    by simp
  with a show ?case
    by (simp add: byte_bounds sextet_bounds [OF a a])
next
  case (3 a b)
  then have a: "a < 256" and b: "b < 256" by simp_all
  from b have "b div 16 < 16" by simp
  note p = pack_div_mod [OF this, of "a mod 4"]
  have "(b mod 16 * 4) div 4 = b mod 16"
    by simp
  with a b p show ?case
    by (simp add: byte_bounds sextet_bounds [OF b b])
next
  case (4 a b c bs)
  then have a: "a < 256" and b: "b < 256" and c: "c < 256"
    and rest: "unbase64 (base64 bs) = Some bs"
    by simp_all
  from b have "b div 16 < 16" by simp
  note p = pack_div_mod [OF this, of "a mod 4"]
  from c have "c div 64 < 4" by simp
  note q = pack_div_mod [OF this, of "b mod 16"]
  from a b c p q rest show ?case
    by (simp add: byte_bounds sextet_bounds [OF b c])
qed

lemma base64_no_comma: "CHR '','' \<notin> set (base64 bs)"
  by (induction bs rule: base64.induct) simp_all

lemma base64_nonempty: "bs \<noteq> [] \<Longrightarrow> base64 bs \<noteq> []"
  by (cases bs rule: base64.cases) simp_all

declare base64.simps [simp del]

lemma split_comma_plain: "CHR '','' \<notin> set r \<Longrightarrow> split_comma r = [r]"
  by (induction r) auto

lemma split_comma_head:
  "CHR '','' \<notin> set h \<Longrightarrow> split_comma (h @ CHR '','' # r) = h # split_comma r"
  by (induction h) auto

lemma blobToBase64_data_url:
  assumes "CHR '','' \<notin> set mime" and "bytes \<noteq> []"
  shows "blobToBase64 (LoadEnd (Some (data_url mime bytes))) = Resolved (base64 bytes)"
proof -
  define h where "h = ''data:'' @ mime @ '';base64''"
  have plain: "CHR '','' \<notin> set h"
    using assms(1) by (simp add: h_def)
  have "data_url mime bytes = h @ CHR '','' # base64 bytes"
    by (simp add: data_url_def h_def)
  also have "split_comma \<dots> = h # split_comma (base64 bytes)"
    using plain by (rule split_comma_head)
  also have "\<dots> = [h, base64 bytes]"
    by (simp only: split_comma_plain [OF base64_no_comma])
  finally have "second (split_comma (data_url mime bytes)) = Some (base64 bytes)"
    by (simp add: second_def)
  with base64_nonempty [OF assms(2)] show ?thesis
    by (simp add: blobToBase64_def)
qed

lemma file_bytes_base64:
  "\<forall>b \<in> set bytes. b < 256 \<Longrightarrow> file_bytes (base64 bytes, Base64) = Some bytes"
  by (simp add: file_bytes_def unbase64_base64)

lemma base64_reply: "base64 [7, 8] = ''Bwg=''"
  by code_simp

lemma await_simps [simp]:
  "await c (Resolved v) k s = k v (called c s)"
  "await c (Rejected e) k s = (called c s, Some e)"
  by (simp_all add: await_def)

lemma called_fields [simp]:
  "isRecording (called c s) = isRecording s"
  "isResponding (called c s) = isResponding s"
  "isAudioAvailable (called c s) = isAudioAvailable s"
  "recordingRef (called c s) = recordingRef s"
  "soundRef (called c s) = soundRef s"
  "console (called c s) = console s"
  "calls (called c s) = calls s @ [c]"
  "files (called c s) = files s"
  "loaded (called c s) = loaded s"
  "nextHandle (called c s) = nextHandle s"
  by (simp_all add: called_def)

lemma console_add_fields [simp]:
  "isRecording (console_add e s) = isRecording s"
  "isResponding (console_add e s) = isResponding s"
  "isAudioAvailable (console_add e s) = isAudioAvailable s"
  "recordingRef (console_add e s) = recordingRef s"
  "soundRef (console_add e s) = soundRef s"
  "console (console_add e s) = console s @ [e]"
  "calls (console_add e s) = calls s"
  "files (console_add e s) = files s"
  "loaded (console_add e s) = loaded s"
  "nextHandle (console_add e s) = nextHandle s"
  by (simp_all add: console_add_def)

lemma sendToAI_end_simps [simp]:
  "sendToAI_end (s, None) = s\<lparr> isResponding := False \<rparr>"
  "sendToAI_end (s, Some e) = (sendToAI_catch e s)\<lparr> isResponding := False \<rparr>"
  by (simp_all add: sendToAI_end_def)

subsection \<open>A task run without interruption is the whole function\<close>

lemma run_Some: "run cfg (s, Some t) = run cfg (resume cfg t s)"
  by simp

declare run.simps [simp del]

lemma run_None [simp]: "run cfg (s, None) = s"
  by (simp add: run.simps)

lemma run_fail [simp]:
  "run cfg (fail_start e s) = startRecording_catch e s"
  "run cfg (fail_stop e s) = stopRecording_catch e s"
  "run cfg (fail_send e s) = (sendToAI_catch e s)\<lparr> isResponding := False \<rparr>"
  "run cfg (finish_send s) = s\<lparr> isResponding := False \<rparr>"
  by (simp_all add: fail_start_def fail_stop_def fail_send_def finish_send_def)

lemma run_start: "run cfg (start_call env s) = fst (startRecording env s)"
  by (simp add: start_call_def startRecording_def startRecording_try_def Let_def
       run_Some split: outcome.split)

lemma run_playAsync:
  "run cfg (called (SoundPlay h) s, Some (Send_playAsync env h))
     = sendToAI_end (await (SoundPlay h) (r_playAsync env) (\<lambda>_ s4. (s4, None)) s)"
  by (simp add: run_Some split: outcome.split)

lemma run_playMode:
  "run cfg (called (SetAudioMode playback_mode) s, Some (Send_playMode env h))
     = sendToAI_end (await (SetAudioMode playback_mode) (r_playMode env) (\<lambda>_.
             await (SoundPlay h) (r_playAsync env) (\<lambda>_ s4. (s4, None))) s)"
  apply (subst run_Some)
  apply (simp add: run_playAsync split: outcome.split)
  done

lemma run_load:
  "run cfg (called (SoundCreate f) s, Some (Send_create env f)) = sendToAI_end (sendToAI_load env f s)"
  apply (subst run_Some)
  apply (simp add: sendToAI_load_def Let_def run_playMode split: outcome.split)
  done

lemma run_unload:
  "run cfg (called (SoundUnload old) s, Some (Send_unload env f old)) =
   sendToAI_end (await (SoundUnload old) (r_unload env) (\<lambda>_ s4.
                 sendToAI_load env f (s4\<lparr> loaded := removeAll old (loaded s4) \<rparr>)) s)"
  apply (subst run_Some)
  apply (simp add: run_load split: outcome.split)
  done

lemma run_write:
  "run cfg (called (WriteFile f b Base64) s, Some (Send_write env f b)) =
   sendToAI_end (await (WriteFile f b Base64) (r_write env) (\<lambda>_ s2.
          (let s3 = s2\<lparr> files := (files s2)(f \<mapsto> (b, Base64)) \<rparr> in
           case soundRef s3 of
             None \<Rightarrow> sendToAI_load env f s3
           | Some old \<Rightarrow>
               await (SoundUnload old) (r_unload env) (\<lambda>_ s4.
                 sendToAI_load env f (s4\<lparr> loaded := removeAll old (loaded s4) \<rparr>)) s3)) s)"
  apply (subst run_Some)
  apply (simp add: run_load run_unload Let_def del: await_simps split: outcome.split option.split)
  apply (simp add: await_def)
  done

lemma run_native:
  "run cfg (called (ReadAsDataURL d) s, Some (Send_reader env d))
     = sendToAI_end (sendToAI_play_native cfg env d s)"
  apply (subst run_Some)
  apply (simp add: sendToAI_play_native_def run_write Let_def del: await_simps 
      split: outcome.split)
  apply (simp add: await_def)
  done

lemma run_web:
  "run cfg (called AudioPlay (called (CreateObjectURL d) s), Some (Send_audioPlay env))
     = sendToAI_end (sendToAI_play_web env d s)"
  by (simp add: run_Some sendToAI_play_web_def split: outcome.split)

lemma run_post:
  "run cfg (send_post env url part s) = sendToAI_end (sendToAI_post cfg env url part s)"
  apply (simp add: send_post_def sendToAI_post_def)
  apply (subst run_Some)
  apply (simp add: run_web run_native split: outcome.split)
  done

lemma run_blob:
  "run cfg (called ResponseBlob s, Some (Send_blob env url)) =
    sendToAI_end (await ResponseBlob (r_blob env) (\<lambda>b.
                  sendToAI_post cfg env url (BlobPart b ''recording.mp3'')) s)"
  apply (subst run_Some)
  apply (simp add: run_post split: outcome.split)
  done

lemma run_fetch:
  "run cfg (called (Fetch uri) s, Some (Send_fetch env uri url)) =
    sendToAI_end (await (Fetch uri) (r_fetch env) (\<lambda>_.
                await ResponseBlob (r_blob env) (\<lambda>b.
                  sendToAI_post cfg env url (BlobPart b ''recording.mp3''))) s)"
  apply (subst run_Some)
  apply (simp add: run_blob del: await_simps split: outcome.split)
  apply (simp add: await_def)
  done

lemma run_send: "run cfg (send_call cfg env uri s) = sendToAI_end (sendToAI_try cfg env uri s)"
  by (simp add: send_call_def sendToAI_try_def run_post run_fetch Let_def)

lemma run_status:
  "recordingRef s = Some rec \<Longrightarrow> run cfg (called (GetStatus rec) s, Some (Stop_status env uri)) =
    fst (case (await (GetStatus rec) (r_getStatus env) (\<lambda>done s1.
                 (let s2 = console_add (Log ''Recording URI:'' uri)
                             (console_add (LogStatus done) s1)
                  in if \<not> done then (s2, Some RecordingNotCompleted)
                     else stopRecording_send cfg env uri s2)) s) of (s', None) \<Rightarrow> (s', None) | (s', Some e) \<Rightarrow> (stopRecording_catch e s', None :: err option))"
  apply (subst run_Some)
  apply (simp add: run_send stopRecording_send_def sendToAI_def Let_def split: outcome.split)
  done

lemma run_stop: "run cfg (stop_call env s) = fst (stopRecording cfg env s)"
proof (cases "recordingRef s")
  case None
  then show ?thesis
    by (simp add: stop_call_def stopRecording_def stopRecording_try_def Let_def)
next
  case (Some rec)
  have "run cfg (called (StopAndUnload rec) (s\<lparr>isRecording := False\<rparr>), Some (Stop_unload env))
      = fst (stopRecording cfg env s)"
    apply (subst run_Some)
    using Some
    apply (simp add: stopRecording_def stopRecording_try_def stopRecording_finalize_def 
       run_status run_send stopRecording_send_def sendToAI_def Let_def split: outcome.split)
    done
  with Some show ?thesis
    by (simp add: stop_call_def Let_def)
qed

subsection \<open>What the functions leave untouched\<close>

lemma isAxiosError_simps [simp]:
  "isAxiosError (AxiosError status body)"
  "\<not> isAxiosError AudioNotAvailable"
  "\<not> isAxiosError PermissionDenied"
  "\<not> isAxiosError NoRecordingURI"
  "\<not> isAxiosError RecordingNotCompleted"
  "\<not> isAxiosError ApiUrlNotDefined"
  "\<not> isAxiosError Base64Failed"
  "\<not> isAxiosError TypeError"
  "\<not> isAxiosError (ExternalError text)"
  "response_status (AxiosError status body) = status"
  "response_data (AxiosError status body) = body"
  by (simp_all add: isAxiosError_def response_status_def response_data_def)

lemma catch_fields [simp]:
  "isRecording (sendToAI_catch e s) = isRecording s"
  "isResponding (sendToAI_catch e s) = isResponding s"
  "isAudioAvailable (sendToAI_catch e s) = isAudioAvailable s"
  "recordingRef (sendToAI_catch e s) = recordingRef s"
  "soundRef (sendToAI_catch e s) = soundRef s"
  "calls (sendToAI_catch e s) = calls s"
  "files (sendToAI_catch e s) = files s"
  "loaded (sendToAI_catch e s) = loaded s"
  "nextHandle (sendToAI_catch e s) = nextHandle s"
  by (simp_all add: sendToAI_catch_def Let_def)

lemma catch_console:
  "console (sendToAI_catch e s) =
     console s @ Error ''Failed to communicate with AI:'' e #
       (case e of AxiosError status body \<Rightarrow> [ErrorStatus status, ErrorData body] | _ \<Rightarrow> [])"
  by (simp add: sendToAI_catch_def isAxiosError_def response_status_def response_data_def
      Let_def split: err.split)

lemma stop_catch_fields [simp]:
  "isRecording (stopRecording_catch e s) = isRecording s"
  "isResponding (stopRecording_catch e s) = False"
  "isAudioAvailable (stopRecording_catch e s) = isAudioAvailable s"
  "recordingRef (stopRecording_catch e s) = recordingRef s"
  "soundRef (stopRecording_catch e s) = soundRef s"
  "console (stopRecording_catch e s) = console s @ [Error ''Failed to stop recording:'' e]"
  "calls (stopRecording_catch e s) = calls s"
  "files (stopRecording_catch e s) = files s"
  "loaded (stopRecording_catch e s) = loaded s"
  "nextHandle (stopRecording_catch e s) = nextHandle s"
  by (simp_all add: stopRecording_catch_def)

lemma start_catch_fields [simp]:
  "isRecording (startRecording_catch e s) = isRecording s"
  "isResponding (startRecording_catch e s) = isResponding s"
  "isAudioAvailable (startRecording_catch e s) = isAudioAvailable s"
  "recordingRef (startRecording_catch e s) = recordingRef s"
  "soundRef (startRecording_catch e s) = soundRef s"
  "console (startRecording_catch e s) = console s @ [Error ''Failed to start recording:'' e]"
  "calls (startRecording_catch e s) = calls s"
  "files (startRecording_catch e s) = files s"
  "loaded (startRecording_catch e s) = loaded s"
  "nextHandle (startRecording_catch e s) = nextHandle s"
  by (simp_all add: startRecording_catch_def)

text \<open>What the \<open>try\<close> block of \<open>sendToAI\<close> never touches.\<close>

lemma load_frame [simp]:
  "isRecording (fst (sendToAI_load env f s)) = isRecording s"
  "isResponding (fst (sendToAI_load env f s)) = isResponding s"
  "isAudioAvailable (fst (sendToAI_load env f s)) = isAudioAvailable s"
  "recordingRef (fst (sendToAI_load env f s)) = recordingRef s"
  "console (fst (sendToAI_load env f s)) = console s"
  "files (fst (sendToAI_load env f s)) = files s"
  by (simp_all add: sendToAI_load_def await_def Let_def split: outcome.split)

lemma native_frame [simp]:
  "isRecording (fst (sendToAI_play_native cfg env d s)) = isRecording s"
  "isResponding (fst (sendToAI_play_native cfg env d s)) = isResponding s"
  "isAudioAvailable (fst (sendToAI_play_native cfg env d s)) = isAudioAvailable s"
  "recordingRef (fst (sendToAI_play_native cfg env d s)) = recordingRef s"
  "console (fst (sendToAI_play_native cfg env d s)) = console s"
  by (simp_all add: sendToAI_play_native_def await_def Let_def split: outcome.split option.split)

lemma web_frame [simp]:
  "isRecording (fst (sendToAI_play_web env d s)) = isRecording s"
  "isResponding (fst (sendToAI_play_web env d s)) = isResponding s"
  "isAudioAvailable (fst (sendToAI_play_web env d s)) = isAudioAvailable s"
  "recordingRef (fst (sendToAI_play_web env d s)) = recordingRef s"
  "soundRef (fst (sendToAI_play_web env d s)) = soundRef s"
  "console (fst (sendToAI_play_web env d s)) = console s"
  "files (fst (sendToAI_play_web env d s)) = files s"
  "loaded (fst (sendToAI_play_web env d s)) = loaded s"
  "nextHandle (fst (sendToAI_play_web env d s)) = nextHandle s"
  by (simp_all add: sendToAI_play_web_def await_def split: outcome.split)

lemma post_frame [simp]:
  "isRecording (fst (sendToAI_post cfg env url part s)) = isRecording s"
  "isResponding (fst (sendToAI_post cfg env url part s)) = isResponding s"
  "isAudioAvailable (fst (sendToAI_post cfg env url part s)) = isAudioAvailable s"
  "recordingRef (fst (sendToAI_post cfg env url part s)) = recordingRef s"
  "console (fst (sendToAI_post cfg env url part s)) = console s"
  by (simp_all add: sendToAI_post_def await_def split: outcome.split)

lemma try_frame [simp]:
  "isRecording (fst (sendToAI_try cfg env uri s)) = isRecording s"
  "isResponding (fst (sendToAI_try cfg env uri s)) = isResponding s"
  "isAudioAvailable (fst (sendToAI_try cfg env uri s)) = isAudioAvailable s"
  "recordingRef (fst (sendToAI_try cfg env uri s)) = recordingRef s"
  by (simp_all add: sendToAI_try_def await_def Let_def split: outcome.split)

lemma sendToAI_end_fields [simp]:
  "isRecording (sendToAI_end p) = isRecording (fst p)"
  "isResponding (sendToAI_end p) = False"
  "isAudioAvailable (sendToAI_end p) = isAudioAvailable (fst p)"
  "recordingRef (sendToAI_end p) = recordingRef (fst p)"
  "soundRef (sendToAI_end p) = soundRef (fst p)"
  "calls (sendToAI_end p) = calls (fst p)"
  "files (sendToAI_end p) = files (fst p)"
  "loaded (sendToAI_end p) = loaded (fst p)"
  "nextHandle (sendToAI_end p) = nextHandle (fst p)"
  by (simp_all add: sendToAI_end_def split: prod.split option.split)

lemma sendToAI_frame [simp]:
  "isRecording (fst (sendToAI cfg env uri s)) = isRecording s"
  "isResponding (fst (sendToAI cfg env uri s)) = False"
  "isAudioAvailable (fst (sendToAI cfg env uri s)) = isAudioAvailable s"
  "recordingRef (fst (sendToAI cfg env uri s)) = recordingRef s"
  "snd (sendToAI cfg env uri s) = None"
  by (simp_all add: sendToAI_def)

lemma send_frame [simp]:
  "isRecording (fst (stopRecording_send cfg env uri s)) = isRecording s"
  "isResponding (fst (stopRecording_send cfg env uri s)) = False"
  "isAudioAvailable (fst (stopRecording_send cfg env uri s)) = isAudioAvailable s"
  "recordingRef (fst (stopRecording_send cfg env uri s)) = recordingRef s"
  "snd (stopRecording_send cfg env uri s) = None"
  by (simp_all add: stopRecording_send_def)

lemma finalize_frame [simp]:
  "isRecording (fst (stopRecording_finalize cfg env s)) = isRecording s"
  "isAudioAvailable (fst (stopRecording_finalize cfg env s)) = isAudioAvailable s"
  "recordingRef (fst (stopRecording_finalize cfg env s)) = recordingRef s"
  by (simp_all add: stopRecording_finalize_def await_def Let_def
      split: option.split outcome.split)

lemma finalize_done:
  "snd (stopRecording_finalize cfg env s) = None \<Longrightarrow>
     \<not> isResponding (fst (stopRecording_finalize cfg env s))"
  by (simp add: stopRecording_finalize_def await_def Let_def
      split: option.splits outcome.splits if_splits)

lemma try_stop_frame [simp]:
  "isRecording (fst (stopRecording_try cfg env s)) = False"
  "isAudioAvailable (fst (stopRecording_try cfg env s)) = isAudioAvailable s"
  "recordingRef (fst (stopRecording_try cfg env s)) = recordingRef s"
  by (simp_all add: stopRecording_try_def await_def Let_def
      split: option.split outcome.split)

lemma try_stop_done:
  "recordingRef s \<noteq> None \<Longrightarrow> snd (stopRecording_try cfg env s) = None \<Longrightarrow>
     \<not> isResponding (fst (stopRecording_try cfg env s))"
  by (auto simp add: stopRecording_try_def await_def Let_def finalize_done
      split: option.splits outcome.splits)

lemma stopRecording_fst:
  "fst (stopRecording cfg env s) =
     (case snd (stopRecording_try cfg env s) of
        None \<Rightarrow> fst (stopRecording_try cfg env s)
      | Some e \<Rightarrow> stopRecording_catch e (fst (stopRecording_try cfg env s)))"
  by (simp add: stopRecording_def split: prod.split option.split)

lemma stopRecording_snd [simp]: "snd (stopRecording cfg env s) = None"
  by (simp add: stopRecording_def split: prod.split option.split)

lemma startRecording_fst:
  "fst (startRecording env s) =
     (case snd (startRecording_try env s) of
        None \<Rightarrow> fst (startRecording_try env s)
      | Some e \<Rightarrow> startRecording_catch e (fst (startRecording_try env s)))"
  by (simp add: startRecording_def split: prod.split option.split)

lemma startRecording_snd [simp]: "snd (startRecording env s) = None"
  by (simp add: startRecording_def split: prod.split option.split)

lemma stopRecording_flags [simp]:
  "isRecording (fst (stopRecording cfg env s)) = False"
  "recordingRef (fst (stopRecording cfg env s)) = recordingRef s"
  "isAudioAvailable (fst (stopRecording cfg env s)) = isAudioAvailable s"
  by (simp_all add: stopRecording_fst split: option.split)

lemma stopRecording_cleared:
  "recordingRef s \<noteq> None \<Longrightarrow> \<not> isResponding (fst (stopRecording cfg env s))"
  using try_stop_done [of s cfg env]
  by (simp add: stopRecording_fst split: option.split)

subsection \<open>The concrete inputs, evaluated\<close>

lemma capturing_hook_eq:
  "capturing_hook = \<lparr> isRecording = True, isResponding = False, isAudioAvailable = True,
     recordingRef = Some 0, soundRef = None,
     console = [Log ''Starting recording...'' []],
     calls = [RequestPermissions, RequestPermissions, SetAudioMode recording_mode, RecordingCreate],
     files = Map.empty, loaded = [], nextHandle = Suc 0 \<rparr>"
  by (simp add: capturing_hook_def startRecording_def startRecording_try_def start_ok_def
      checkAudioAvailability_def init_hook_def called_def console_add_def Let_def)

lemma stop_ok_fields [simp]:
  "r_stopAndUnload stop_ok = Resolved ()"
  "r_getURI stop_ok = Some ''rec''"
  "r_getStatus stop_ok = Resolved True"
  "r_fetch stop_ok = Resolved ()"
  "r_blob stop_ok = Resolved [1, 2]"
  "r_post stop_ok = Resolved [7, 8]"
  "r_audioPlay stop_ok = Resolved ()"
  "r_reader stop_ok b = LoadEnd (Some (data_url ''audio/mpeg'' b))"
  "r_write stop_ok = Resolved ()"
  "r_unload stop_ok = Resolved ()"
  "r_soundCreate stop_ok = Resolved ()"
  "r_playMode stop_ok = Resolved ()"
  "r_playAsync stop_ok = Resolved ()"
  by (simp_all add: stop_ok_def)

lemma stop_ok_reply [simp]:
  "blobToBase64 (LoadEnd (Some (data_url ''audio/mpeg'' [7, 8]))) = Resolved ''Bwg=''"
  by (simp add: blobToBase64_data_url base64_reply)

lemma cfg_fields [simp]:
  "os native_cfg = Native" "apiUrl native_cfg = Some ''http://api''"
  "cacheDirectory native_cfg = Some ''cache/''"
  "os web_cfg = Web" "apiUrl web_cfg = Some ''http://api''"
  "cacheDirectory web_cfg = None"
  by (simp_all add: native_cfg_def web_cfg_def)

subsection \<open>Success, failure and the console\<close>

lemma no_endpoint_try:
  "falsy (apiUrl cfg) \<Longrightarrow> sendToAI_try cfg env uri s = (s, Some ApiUrlNotDefined)"
  by (simp add: sendToAI_try_def)

lemma no_endpoint_calls:
  "falsy (apiUrl cfg) \<Longrightarrow>
     filter is_request (calls (fst (stopRecording cfg env s))) = filter is_request (calls s)"
  by (simp add: stopRecording_fst stopRecording_try_def stopRecording_finalize_def
      stopRecording_send_def sendToAI_def no_endpoint_try await_def Let_def
      split: option.split outcome.split)

lemma load_played:
  "(snd (sendToAI_load env f s) = None) =
      playback_started env (last (calls (fst (sendToAI_load env f s))))"
  by (simp add: sendToAI_load_def await_def Let_def playback_started_def split: outcome.split)

lemma native_played:
  "(snd (sendToAI_play_native cfg env d s) = None) =
      playback_started env (last (calls (fst (sendToAI_play_native cfg env d s))))"
  by (simp add: sendToAI_play_native_def await_def Let_def load_played playback_started_def
      split: outcome.split option.split)

lemma web_played:
  "(snd (sendToAI_play_web env d s) = None) =
      playback_started env (last (calls (fst (sendToAI_play_web env d s))))"
  by (simp add: sendToAI_play_web_def await_def playback_started_def split: outcome.split)

lemma post_played:
  "(snd (sendToAI_post cfg env url part s) = None) =
      playback_started env (last (calls (fst (sendToAI_post cfg env url part s))))"
  by (simp add: sendToAI_post_def await_def web_played native_played playback_started_def
      split: outcome.split)

lemma try_played:
  "(snd (sendToAI_try cfg env uri s) = None) =
      (\<not> falsy (apiUrl cfg) \<and>
       playback_started env (last (calls (fst (sendToAI_try cfg env uri s)))))"
  by (simp add: sendToAI_try_def await_def Let_def post_played playback_started_def
      split: outcome.split)

lemma try_errors:
  "filter is_error (console (fst (sendToAI_try cfg env uri s))) = filter is_error (console s)"
  by (simp add: sendToAI_try_def await_def Let_def split: outcome.split)

lemma sendToAI_errors:
  "length (filter is_error (console (fst (sendToAI cfg env uri s)))) =
     length (filter is_error (console s)) +
       (case snd (sendToAI_try cfg env uri s) of None \<Rightarrow> 0 | Some e \<Rightarrow> 1)"
  by (cases "sendToAI_try cfg env uri s")
     (auto simp add: sendToAI_def catch_console try_errors split: option.split err.split
        dest: arg_cong [where f = "\<lambda>p. filter is_error (console (fst p))"])

lemma sendToAI_calls:
  "calls (fst (sendToAI cfg env uri s)) = calls (fst (sendToAI_try cfg env uri s))"
  by (simp add: sendToAI_def)

lemma send_errors:
  assumes "\<not> playback_started env (last (calls s))"
  shows "length (filter is_error (console (fst (stopRecording_send cfg env uri s)))) =
     length (filter is_error (console s)) +
       (if playback_started env (last (calls (fst (stopRecording_send cfg env uri s))))
        then 0 else 1)"
proof (cases "falsy (apiUrl cfg)")
  case True
  with assms show ?thesis
    by (simp add: stopRecording_send_def sendToAI_errors sendToAI_calls no_endpoint_try)
next
  case False
  then show ?thesis
    using try_played [of cfg env uri "s\<lparr>isResponding := True\<rparr>"]
    by (cases "snd (sendToAI_try cfg env uri (s\<lparr>isResponding := True\<rparr>))")
       (simp_all add: stopRecording_send_def sendToAI_errors sendToAI_calls)
qed

lemma not_played [simp]:
  "\<not> playback_started env (StopAndUnload h)"
  "\<not> playback_started env (GetStatus h)"
  by (simp_all add: playback_started_def)

lemma finalize_errors:
  assumes "calls s = cs @ [StopAndUnload h]"
  shows "length (filter is_error
           (console (case snd (stopRecording_finalize cfg env s) of
                       None \<Rightarrow> fst (stopRecording_finalize cfg env s)
                     | Some e \<Rightarrow> stopRecording_catch e (fst (stopRecording_finalize cfg env s))))) =
     length (filter is_error (console s)) +
       (if playback_started env (last (calls (fst (stopRecording_finalize cfg env s))))
        then 0 else 1)"
  using assms
  by (simp add: stopRecording_finalize_def await_def Let_def send_errors
      split: option.split outcome.split)

lemma stopRecording_errors:
  assumes "recordingRef s \<noteq> None"
  shows "length (filter is_error (console (fst (stopRecording cfg env s)))) =
     length (filter is_error (console s)) +
       (if playback_started env (last (calls (fst (stopRecording cfg env s)))) then 0 else 1)"
proof -
  from assms obtain h where h: "recordingRef s = Some h"
    by auto
  show ?thesis
  proof (cases "r_stopAndUnload env")
    case (Rejected e)
    with h show ?thesis
      by (simp add: stopRecording_fst stopRecording_try_def Let_def)
  next
    case (Resolved u)
    have c: "calls (called (StopAndUnload h) (s\<lparr>isRecording := False\<rparr>))
               = calls s @ [StopAndUnload h]"
      by simp
    from h Resolved have eq: "stopRecording_try cfg env s =
        stopRecording_finalize cfg env (called (StopAndUnload h) (s\<lparr>isRecording := False\<rparr>))"
      by (simp add: stopRecording_try_def Let_def)
    from finalize_errors [OF c, of cfg env] show ?thesis
      unfolding stopRecording_fst eq by (simp split: option.split)
  qed
qed

lemma try_console_prefix:
  "prefix (console s) (console (fst (sendToAI_try cfg env uri s)))"
  by (simp add: sendToAI_try_def await_def Let_def split: outcome.split)

lemma sendToAI_console_prefix:
  "prefix (console s) (console (fst (sendToAI cfg env uri s)))"
proof -
  have "prefix (console (fst (sendToAI_try cfg env uri s)))
          (console (fst (sendToAI cfg env uri s)))"
    by (cases "sendToAI_try cfg env uri s")
       (simp add: sendToAI_def sendToAI_end_def catch_console split: option.split)
  with try_console_prefix [of s cfg env uri] show ?thesis
    by (rule prefix_order.trans)
qed

lemma send_console_prefix:
  "console s' = console s @ xs \<Longrightarrow>
     prefix (console s) (console (fst (stopRecording_send cfg env uri s')))"
  using sendToAI_console_prefix [of "s'\<lparr>isResponding := True\<rparr>" cfg env uri]
  by (simp add: stopRecording_send_def append_prefixD)

lemma finalize_console_prefix:
  "prefix (console s) (console (fst (stopRecording_finalize cfg env s)))"
  by (simp add: stopRecording_finalize_def await_def Let_def send_console_prefix
      split: option.split outcome.split)

lemma stopRecording_console_prefix:
  "prefix (console s) (console (fst (stopRecording cfg env s)))"
proof -
  have "prefix (console s) (console (fst (stopRecording_try cfg env s)))"
    using finalize_console_prefix [of "called c (s\<lparr>isRecording := False\<rparr>)" cfg env for c]
    by (simp add: stopRecording_try_def await_def Let_def split: option.split outcome.split)
  then show ?thesis
    by (simp add: stopRecording_fst prefix_order.trans split: option.split)
qed

lemma new_errors_length:
  "prefix (console s) (console s') \<Longrightarrow>
     length (filter is_error (console s')) =
       length (filter is_error (console s)) + length (new_errors s s')"
  by (auto simp: new_errors_def elim!: prefixE)

subsection \<open>The cached reply\<close>

lemma load_writes:
  "filter is_write (calls (fst (sendToAI_load env f s))) = filter is_write (calls s)"
  by (simp add: sendToAI_load_def await_def Let_def split: outcome.split)

lemma native_files:
  assumes "blobToBase64 (r_reader env d) = Resolved b" and "r_write env = Resolved ()"
  shows "files (fst (sendToAI_play_native cfg env d s)) =
           (files s)(template (cacheDirectory cfg) @ ''response.mp3'' \<mapsto> (b, Base64))"
    and "filter is_write (calls (fst (sendToAI_play_native cfg env d s))) =
           filter is_write (calls s)
             @ [WriteFile (template (cacheDirectory cfg) @ ''response.mp3'') b Base64]"
  using assms
  by (simp_all add: sendToAI_play_native_def await_def Let_def load_writes
      split: outcome.split option.split)

lemma native_try:
  assumes "os cfg = Native" and "\<not> falsy (apiUrl cfg)" and "r_post env = Resolved reply"
  shows "sendToAI_try cfg env uri s =
     sendToAI_play_native cfg env reply
       (called (AxiosPost (template (apiUrl cfg) @ ''/talk'')
                  (UriPart uri ''recording.mp3'' ''audio/mpeg'', context_prompt))
          (console_add (Log ''Sending to API:'' (template (apiUrl cfg) @ ''/talk'')) s))"
  using assms by (simp add: sendToAI_try_def sendToAI_post_def Let_def)

lemma native_send:
  assumes "os cfg = Native" and "\<not> falsy (apiUrl cfg)" and "r_post env = Resolved reply"
    and "blobToBase64 (r_reader env reply) = Resolved b" and "r_write env = Resolved ()"
  shows "files (fst (stopRecording_send cfg env uri s)) =
           (files s)(template (cacheDirectory cfg) @ ''response.mp3'' \<mapsto> (b, Base64))"
    and "filter is_write (calls (fst (stopRecording_send cfg env uri s))) =
           filter is_write (calls s)
             @ [WriteFile (template (cacheDirectory cfg) @ ''response.mp3'') b Base64]"
  using assms
  by (simp_all add: stopRecording_send_def sendToAI_def native_try native_files)

lemma native_stop:
  assumes "os cfg = Native" and "\<not> falsy (apiUrl cfg)"
    and "recordingRef s \<noteq> None"
    and "r_stopAndUnload env = Resolved ()" and "\<not> falsy (r_getURI env)"
    and "r_getStatus env = Resolved True"
    and "r_post env = Resolved reply"
    and "blobToBase64 (r_reader env reply) = Resolved b"
    and "r_write env = Resolved ()"
  shows "files (fst (stopRecording cfg env s)) =
           (files s)(template (cacheDirectory cfg) @ ''response.mp3'' \<mapsto> (b, Base64))
       \<and> filter is_write (calls (fst (stopRecording cfg env s))) =
           filter is_write (calls s)
             @ [WriteFile (template (cacheDirectory cfg) @ ''response.mp3'') b Base64]"
proof -
  from assms(3) obtain h where h: "recordingRef s = Some h"
    by auto
  define s2 where "s2 = console_add (Log ''Recording URI:'' (template (r_getURI env)))
     (console_add (LogStatus True)
        (called (GetStatus h) (called (StopAndUnload h) (s\<lparr>isRecording := False\<rparr>))))"
  have "stopRecording_try cfg env s = stopRecording_send cfg env (template (r_getURI env)) s2"
    using assms(1,4,5,6) h
    by (simp add: stopRecording_try_def stopRecording_finalize_def Let_def s2_def)
  then have "fst (stopRecording cfg env s) =
      fst (stopRecording_send cfg env (template (r_getURI env)) s2)"
    by (simp add: stopRecording_fst)
  with native_send [OF assms(1,2,7,8,9), of "template (r_getURI env)" s2]
  show ?thesis
    by (simp add: s2_def)
qed

lemma web_post_writes:
  assumes "os cfg = Web"
  shows "files (fst (sendToAI_post cfg env url part s)) = files s"
    and "filter is_write (calls (fst (sendToAI_post cfg env url part s))) = filter is_write (calls s)"
  using assms
  by (simp_all add: sendToAI_post_def sendToAI_play_web_def await_def split: outcome.split)

lemma web_try_writes:
  assumes "os cfg = Web"
  shows "files (fst (sendToAI_try cfg env uri s)) = files s"
    and "filter is_write (calls (fst (sendToAI_try cfg env uri s))) = filter is_write (calls s)"
  using assms
  by (simp_all add: sendToAI_try_def await_def Let_def web_post_writes split: outcome.split)

lemma web_send_writes:
  assumes "os cfg = Web"
  shows "files (fst (stopRecording_send cfg env uri s)) = files s"
    and "filter is_write (calls (fst (stopRecording_send cfg env uri s))) = filter is_write (calls s)"
  using assms
  by (simp_all add: stopRecording_send_def sendToAI_def web_try_writes)

lemma web_stop_writes:
  assumes "os cfg = Web"
  shows "files (fst (stopRecording cfg env s)) = files s
       \<and> filter is_write (calls (fst (stopRecording cfg env s))) = filter is_write (calls s)"
  using assms
  by (simp add: stopRecording_fst stopRecording_try_def stopRecording_finalize_def
      web_send_writes await_def Let_def split: option.split outcome.split)

subsection \<open>What one step can change\<close>

lemma replace_set:
  "set (take i ts @ xs @ drop (Suc i) ts) \<subseteq> set ts \<union> set xs"
  by (auto dest: in_set_takeD in_set_dropD)

lemma replace_count:
  assumes "i < length ts"
  shows "length (filter P (take i ts @ xs @ drop (Suc i) ts)) + (if P (ts ! i) then 1 else 0)
           = length (filter P ts) + length (filter P xs)"
proof -
  have "length (filter P ts) = length (filter P (take i ts @ ts ! i # drop (Suc i) ts))"
    using assms by (simp add: id_take_nth_drop [symmetric])
  then show ?thesis
    by simp
qed

lemma replace_only:
  assumes "i < length ts" and "P (ts ! i)" and "length (filter P ts) \<le> 1"
    and "x \<in> set (take i ts @ xs @ drop (Suc i) ts)" and "P x"
  shows "x \<in> set xs"
proof -
  from replace_count [OF assms(1), of P "[]"] assms(2)
  have "Suc (length (filter P (take i ts)) + length (filter P (drop (Suc i) ts)))
          = length (filter P ts)"
    by simp
  with assms(3) have "length (filter P (take i ts)) = 0 \<and> length (filter P (drop (Suc i) ts)) = 0"
    by linarith
  then have "filter P (take i ts) = [] \<and> filter P (drop (Suc i) ts) = []"
    by simp
  then have "\<forall>y \<in> set (take i ts) \<union> set (drop (Suc i) ts). \<not> P y"
    by (auto simp: filter_empty_conv)
  with assms(4,5) show ?thesis
    by auto
qed

lemma resume_probe:
  assumes "is_probe t" and "resume cfg t s = (s', t')"
  shows "t' = None \<and> isRecording s' = isRecording s \<and> isResponding s' = isResponding s
       \<and> recordingRef s' = recordingRef s \<and> soundRef s' = soundRef s
       \<and> loaded s' = loaded s \<and> nextHandle s' = nextHandle s"
  using assms by (cases t) (auto split: outcome.splits)

lemma resume_start:
  assumes "is_start t" and "resume cfg t s = (s', t')"
  shows "isResponding s' = isResponding s \<and> isAudioAvailable s' = isAudioAvailable s
       \<and> soundRef s' = soundRef s \<and> loaded s' = loaded s
       \<and> (\<forall>x. t' = Some x \<longrightarrow> is_start x)
       \<and> (recordingRef s' = None \<longrightarrow>
             recordingRef s = None \<and> isRecording s' = isRecording s
             \<and> nextHandle s' = nextHandle s)"
  using assms
  by (cases t) (auto simp: fail_start_def split: outcome.splits if_splits)

lemma send_call_stop:
  assumes "send_call cfg env uri s = (s', t')"
  shows "isRecording s' = isRecording s \<and> recordingRef s' = recordingRef s
       \<and> isAudioAvailable s' = isAudioAvailable s
       \<and> soundRef s' = soundRef s \<and> loaded s' = loaded s \<and> nextHandle s' = nextHandle s
       \<and> (t' = None \<longrightarrow> \<not> isResponding s')
       \<and> (\<forall>x. t' = Some x \<longrightarrow> (\<exists>u. x = Send_fetch env uri u) \<or> x = Send_post env)"
  using assms
  by (auto simp: send_call_def send_post_def fail_send_def Let_def split: if_splits)

lemma resume_stop:
  assumes "is_stop t" and "resume cfg t s = (s', t')"
  shows "isRecording s' = isRecording s \<and> recordingRef s' = recordingRef s
       \<and> isAudioAvailable s' = isAudioAvailable s
       \<and> (t' = None \<longrightarrow> \<not> isResponding s')
       \<and> (\<forall>x. t' = Some x \<longrightarrow> is_stop x)"
  using assms
  by (cases t)
     (auto simp: is_stop_def fail_stop_def fail_send_def finish_send_def send_post_def Let_def
        split: outcome.splits if_splits option.splits dest!: send_call_stop)

lemma start_call_effect:
  assumes "start_call env s = (s', t')"
  shows "isRecording s' = isRecording s \<and> isResponding s' = isResponding s
       \<and> isAudioAvailable s' = isAudioAvailable s \<and> recordingRef s' = recordingRef s
       \<and> soundRef s' = soundRef s \<and> loaded s' = loaded s \<and> nextHandle s' = nextHandle s
       \<and> files s' = files s
       \<and> (\<not> isAudioAvailable s \<longrightarrow> t' = None \<and> calls s' = calls s)
       \<and> (\<forall>x. t' = Some x \<longrightarrow> is_start x \<and> isAudioAvailable s)"
  using assms
  by (auto simp: start_call_def fail_start_def Let_def split: if_splits)

lemma stop_call_effect:
  assumes "stop_call env s = (s', t')"
  shows "\<not> isRecording s' \<and> isResponding s' = isResponding s
       \<and> isAudioAvailable s' = isAudioAvailable s \<and> recordingRef s' = recordingRef s
       \<and> soundRef s' = soundRef s \<and> loaded s' = loaded s \<and> nextHandle s' = nextHandle s
       \<and> (recordingRef s = None \<longrightarrow> t' = None \<and> s' = s\<lparr> isRecording := False \<rparr>)
       \<and> (\<forall>x. t' = Some x \<longrightarrow> is_stop x \<and> recordingRef s \<noteq> None)"
  using assms
  by (auto simp: stop_call_def is_stop_def Let_def split: option.splits)

subsection \<open>What holds in every reachable configuration\<close>

lemma start_not_probe: "is_start t \<Longrightarrow> \<not> is_probe t"
  by (cases t) simp_all

lemma suspended_simps [simp]:
  "suspended None = []" "suspended (Some x) = [x]"
  by (simp_all add: suspended_def)

lemma settled_mount: "settled (mount r)"
  by (simp add: settled_def mount_def init_hook_def is_stop_def)

lemma settled_start:
  assumes "settled c"
  shows "settled (step cfg (CallStart env) c)"
proof -
  obtain s' t' where r: "start_call env (st c) = (s', t')"
    by (cases "start_call env (st c)")
  from start_call_effect [OF r] assms show ?thesis
    by (cases t') (auto simp: settled_def r is_stop_def dest: start_not_probe)
qed

lemma settled_stop:
  assumes "settled c"
  shows "settled (step cfg (CallStop env) c)"
proof -
  obtain s' t' where r: "stop_call env (st c) = (s', t')"
    by (cases "stop_call env (st c)")
  from stop_call_effect [OF r] assms show ?thesis
    by (cases t') (auto simp: settled_def r is_stop_def dest: start_not_probe)
qed

lemma step_resume:
  assumes "i < length (tasks c)" and "resume cfg (tasks c ! i) (st c) = (s', t')"
  shows "step cfg (Resume i) c =
           \<lparr> st = s', tasks = take i (tasks c) @ suspended t' @ drop (Suc i) (tasks c) \<rparr>"
  using assms by simp

lemma settled_resume:
  assumes inv: "settled c" and i: "i < length (tasks c)"
  shows "settled (step cfg (Resume i) c)"
proof -
  obtain s' t' where r: "resume cfg (tasks c ! i) (st c) = (s', t')"
    by (cases "resume cfg (tasks c ! i) (st c)")
  define ts where "ts = take i (tasks c) @ suspended t' @ drop (Suc i) (tasks c)"
  have c': "step cfg (Resume i) c = \<lparr> st = s', tasks = ts \<rparr>"
    unfolding ts_def by (rule step_resume [OF i r])
  have mem: "tasks c ! i \<in> set (tasks c)"
    using i by simp
  have sub: "set ts \<subseteq> set (tasks c) \<union> set (suspended t')"
    unfolding ts_def by (rule replace_set)
  from inv have one: "length (filter is_probe (tasks c)) \<le> 1"
    by (simp add: settled_def)
  have cnt: "length (filter is_probe ts) + (if is_probe (tasks c ! i) then 1 else 0)
      = length (filter is_probe (tasks c)) + length (filter is_probe (suspended t'))"
    unfolding ts_def by (rule replace_count [OF i])
  consider (probe) "is_probe (tasks c ! i)" | (start) "is_start (tasks c ! i)"
    | (stop) "is_stop (tasks c ! i)"
    by (auto simp: is_stop_def)
  then show ?thesis
  proof cases
    case probe
    note same = resume_probe [OF probe r]
    from inv probe mem have na: "\<not> isAudioAvailable (st c)"
      by (auto simp: settled_def)
    with inv have none: "recordingRef (st c) = None"
      and allp: "\<forall>t \<in> set (tasks c). is_probe t"
      by (auto simp: settled_def)
    have "ts = []"
    proof (cases ts)
      case (Cons x xs)
      then have x: "x \<in> set ts"
        by simp
      with sub same allp have "is_probe x"
        by auto
      from replace_only [OF i probe one x [unfolded ts_def] this] same show ?thesis
        by simp
    qed
    with inv none same show ?thesis
      unfolding c' by (simp add: settled_def)
  next
    case start
    from inv mem start have av: "isAudioAvailable (st c)"
      by (auto simp: settled_def dest: start_not_probe)
    note eff = resume_start [OF start r]
    from eff have new: "\<forall>x \<in> set (suspended t'). is_start x"
      by (cases t') auto
    with sub have kinds: "\<forall>x \<in> set ts. x \<in> set (tasks c) \<or> is_start x"
      by auto
    from new have "filter is_probe (suspended t') = []"
      by (auto simp: filter_empty_conv dest: start_not_probe)
    with cnt one have d: "length (filter is_probe ts) \<le> 1"
      by (simp split: if_splits)
    from inv av eff kinds d show ?thesis
      unfolding c' settled_def
      by (auto simp: is_stop_def dest: start_not_probe)
  next
    case stop
    from inv mem stop have ref: "recordingRef (st c) \<noteq> None"
      by (auto simp: settled_def)
    with inv have av: "isAudioAvailable (st c)"
      by (auto simp: settled_def)
    note eff = resume_stop [OF stop r]
    from eff have new: "\<forall>x \<in> set (suspended t'). is_stop x"
      by (cases t') auto
    with sub have kinds: "\<forall>x \<in> set ts. x \<in> set (tasks c) \<or> is_stop x"
      by auto
    from new have "filter is_probe (suspended t') = []"
      by (auto simp: filter_empty_conv is_stop_def)
    with cnt one have d: "length (filter is_probe ts) \<le> 1"
      by (simp split: if_splits)
    from inv av ref eff kinds d show ?thesis
      unfolding c' settled_def
      by (auto simp: is_stop_def)
  qed
qed

lemma settled_step:
  assumes "settled c"
  shows "settled (step cfg e c)"
proof (cases e)
  case (CallStart env)
  from assms show ?thesis
    unfolding CallStart by (rule settled_start)
next
  case (CallStop env)
  from assms show ?thesis
    unfolding CallStop by (rule settled_stop)
next
  case (Resume i)
  show ?thesis
  proof (cases "i < length (tasks c)")
    case True
    with assms show ?thesis
      unfolding Resume by (rule settled_resume)
  next
    case False
    with assms show ?thesis
      by (simp add: Resume)
  qed
qed

lemma reach_settled: "reach cfg pol c \<Longrightarrow> settled c"
  by (induction rule: reach.induct) (simp_all add: settled_mount settled_step)

lemma reach_exec:
  "reach cfg pol c \<Longrightarrow> allowed pol cfg es c \<Longrightarrow> reach cfg pol (exec cfg es c)"
  by (induction es arbitrary: c) (auto intro: reach_step)

lemma start_ok_fields [simp]:
  "r_permission start_ok = Resolved True"
  "r_recordMode start_ok = Resolved ()"
  "r_create start_ok = Resolved ()"
  by (simp_all add: start_ok_def)

lemma unavailable_config_eq:
  "unavailable_config = \<lparr> st = (called RequestPermissions init_hook), tasks = [] \<rparr>"
  by (simp add: unavailable_config_def mount_def init_hook_def called_def)

lemma capturing_config_eq:
  "capturing_config = \<lparr> st = capturing_hook, tasks = [] \<rparr>"
  by (simp add: capturing_config_def capturing_hook_eq mount_def init_hook_def
      start_call_def called_def console_add_def Let_def)

lemma awaiting_config_eq:
  "awaiting_config =
     \<lparr> st = \<lparr> isRecording = False, isResponding = True, isAudioAvailable = True,
              recordingRef = Some 0, soundRef = None,
              console = [Log ''Starting recording...'' [], LogStatus True,
                         Log ''Recording URI:'' ''rec'',
                         Log ''Sending to API:'' ''http://api/talk''],
              calls = [RequestPermissions, RequestPermissions, SetAudioMode recording_mode,
                       RecordingCreate, StopAndUnload 0, GetStatus 0,
                       AxiosPost ''http://api/talk''
                         (UriPart ''rec'' ''recording.mp3'' ''audio/mpeg'', context_prompt)],
              files = Map.empty, loaded = [], nextHandle = Suc 0 \<rparr>,
       tasks = [Send_post stop_ok] \<rparr>"
  by (simp add: awaiting_config_def capturing_config_eq capturing_hook_eq
      stop_call_def send_call_def send_post_def falsy_def template_def
      called_def console_add_def Let_def)

lemma overlapped_config_eq:
  "overlapped_config =
     \<lparr> st = \<lparr> isRecording = True, isResponding = True, isAudioAvailable = True,
              recordingRef = Some 1, soundRef = None,
              console = [Log ''Starting recording...'' [], LogStatus True,
                         Log ''Recording URI:'' ''rec'',
                         Log ''Sending to API:'' ''http://api/talk'',
                         Log ''Starting recording...'' []],
              calls = [RequestPermissions, RequestPermissions, SetAudioMode recording_mode,
                       RecordingCreate, StopAndUnload 0, GetStatus 0,
                       AxiosPost ''http://api/talk''
                         (UriPart ''rec'' ''recording.mp3'' ''audio/mpeg'', context_prompt),
                       RequestPermissions, SetAudioMode recording_mode, RecordingCreate],
              files = Map.empty, loaded = [], nextHandle = 2 \<rparr>,
       tasks = [Send_post stop_ok] \<rparr>"
  by (simp add: overlapped_config_def awaiting_config_eq
      start_call_def called_def console_add_def Let_def numeral_2_eq_2)

lemma allowed_anytime [simp]: "allowed anytime cfg es c"
  by (induction es arbitrary: c) (simp_all add: anytime_def)

lemma reach_unavailable: "reach native_cfg anytime unavailable_config"
  unfolding unavailable_config_def
  by (rule reach_exec [OF reach_mount allowed_anytime])

lemma reach_capturing: "reach native_cfg anytime capturing_config"
  unfolding capturing_config_def
  by (rule reach_exec [OF reach_mount allowed_anytime])

lemma reach_awaiting: "reach native_cfg anytime awaiting_config"
  unfolding awaiting_config_def
  by (rule reach_exec [OF reach_capturing allowed_anytime])

lemma reach_overlapped: "reach native_cfg anytime overlapped_config"
  unfolding overlapped_config_def
  by (rule reach_exec [OF reach_awaiting allowed_anytime])

lemma start_call_unavailable:
  "\<not> isAudioAvailable s \<Longrightarrow>
     start_call env s =
       (console_add (Error ''Failed to start recording:'' AudioNotAvailable)
          (console_add (Log ''Starting recording...'' []) s), None)"
  by (simp add: start_call_def fail_start_def startRecording_catch_def Let_def)

lemma step_keeps_session:
  assumes "recordingRef (st c) \<noteq> None"
  shows "recordingRef (st (step cfg e c)) \<noteq> None"
proof (cases e)
  case (CallStart env)
  obtain s' t' where r: "start_call env (st c) = (s', t')"
    by (cases "start_call env (st c)")
  from start_call_effect [OF r] assms show ?thesis
    by (simp add: CallStart r)
next
  case (CallStop env)
  obtain s' t' where r: "stop_call env (st c) = (s', t')"
    by (cases "stop_call env (st c)")
  from stop_call_effect [OF r] assms show ?thesis
    by (simp add: CallStop r)
next
  case (Resume i)
  show ?thesis
  proof (cases "i < length (tasks c)")
    case False
    with assms show ?thesis
      by (simp add: Resume)
  next
    case True
    obtain s' t' where r: "resume cfg (tasks c ! i) (st c) = (s', t')"
      by (cases "resume cfg (tasks c ! i) (st c)")
    consider (probe) "is_probe (tasks c ! i)" | (start) "is_start (tasks c ! i)"
      | (stop) "is_stop (tasks c ! i)"
      by (auto simp: is_stop_def)
    then have "recordingRef s' \<noteq> None"
    proof cases
      case probe
      from resume_probe [OF probe r] assms show ?thesis by simp
    next
      case start
      from resume_start [OF start r] assms show ?thesis by auto
    next
      case stop
      from resume_stop [OF stop r] assms show ?thesis by simp
    qed
    then show ?thesis
      unfolding Resume step_resume [OF True r] by simp
  qed
qed

lemma replace_superset:
  assumes "i < length ts"
  shows "set ts \<subseteq> insert (ts ! i) (set (take i ts @ xs @ drop (Suc i) ts))"
proof -
  have "set ts = set (take i ts @ ts ! i # drop (Suc i) ts)"
    using assms by (simp add: id_take_nth_drop [symmetric])
  then show ?thesis
    by auto
qed

lemma exclusive_mount: "exclusive (mount r)"
  by (simp add: exclusive_def mount_def init_hook_def is_stop_def)

lemma exclusive_start:
  assumes "exclusive c" and "list_all (\<lambda>t. \<not> is_stop t) (tasks c)"
  shows "exclusive (step cfg (CallStart env) c)"
proof -
  obtain s' t' where r: "start_call env (st c) = (s', t')"
    by (cases "start_call env (st c)")
  from assms(2) have "\<forall>t \<in> set (tasks c). \<not> is_stop t"
    by (simp add: list_all_iff)
  with start_call_effect [OF r] assms(1) show ?thesis
    by (cases t') (auto simp: exclusive_def r is_stop_def)
qed

lemma exclusive_stop:
  assumes "exclusive c" and "list_all (\<lambda>t. \<not> is_start t) (tasks c)"
  shows "exclusive (step cfg (CallStop env) c)"
proof -
  obtain s' t' where r: "stop_call env (st c) = (s', t')"
    by (cases "stop_call env (st c)")
  from assms(2) have "\<forall>t \<in> set (tasks c). \<not> is_start t"
    by (simp add: list_all_iff)
  with stop_call_effect [OF r] assms(1) show ?thesis
    by (cases t') (auto simp: exclusive_def r is_stop_def)
qed

lemma exclusive_resume:
  assumes inv: "exclusive c" and i: "i < length (tasks c)"
  shows "exclusive (step cfg (Resume i) c)"
proof -
  obtain s' t' where r: "resume cfg (tasks c ! i) (st c) = (s', t')"
    by (cases "resume cfg (tasks c ! i) (st c)")
  define ts where "ts = take i (tasks c) @ suspended t' @ drop (Suc i) (tasks c)"
  have c': "step cfg (Resume i) c = \<lparr> st = s', tasks = ts \<rparr>"
    unfolding ts_def by (rule step_resume [OF i r])
  have mem: "tasks c ! i \<in> set (tasks c)"
    using i by simp
  have sub: "set ts \<subseteq> set (tasks c) \<union> set (suspended t')"
    unfolding ts_def by (rule replace_set)
  have sup: "set (tasks c) \<subseteq> insert (tasks c ! i) (set ts)"
    unfolding ts_def by (rule replace_superset [OF i])
  have in_new: "x \<in> set ts" if "t' = Some x" for x
    using that by (simp add: ts_def)
  consider (probe) "is_probe (tasks c ! i)" | (start) "is_start (tasks c ! i)"
    | (stop) "is_stop (tasks c ! i)"
    by (auto simp: is_stop_def)
  then show ?thesis
  proof cases
    case probe
    note same = resume_probe [OF probe r]
    from same sub have old: "\<forall>x \<in> set ts. x \<in> set (tasks c)"
      by auto
    have earlier: "\<forall>t \<in> set (tasks c). \<not> is_stop t" if "\<forall>t \<in> set ts. \<not> is_stop t"
      using that sup probe by (auto simp: is_stop_def)
    from inv same old earlier show ?thesis
      unfolding c' exclusive_def by auto
  next
    case start
    from inv mem start have none: "\<forall>t \<in> set (tasks c). \<not> is_stop t"
      by (auto simp: exclusive_def)
    with inv have nr: "\<not> isResponding (st c)"
      by (simp add: exclusive_def)
    note eff = resume_start [OF start r]
    from eff have new: "\<forall>x \<in> set (suspended t'). is_start x"
      by (cases t') auto
    with sub none have "\<forall>x \<in> set ts. \<not> is_stop x"
      by (auto simp: is_stop_def)
    with nr eff show ?thesis
      unfolding c' exclusive_def by simp
  next
    case stop
    from inv mem stop have nr: "\<not> isRecording (st c)"
      and ns: "\<forall>u \<in> set (tasks c). \<not> is_start u"
      by (auto simp: exclusive_def)
    note eff = resume_stop [OF stop r]
    from eff have new: "\<forall>x \<in> set (suspended t'). is_stop x"
      by (cases t') auto
    with sub ns have e1: "\<forall>x \<in> set ts. \<not> is_start x"
      by (auto simp: is_stop_def)
    have e2: "\<not> isResponding s'" if "\<forall>t \<in> set ts. \<not> is_stop t"
    proof (cases t')
      case None
      with eff show ?thesis by simp
    next
      case (Some x)
      from in_new [OF Some] that have "\<not> is_stop x" by simp
      with new Some show ?thesis
        by simp
    qed
    from nr eff e1 e2 show ?thesis
      unfolding c' exclusive_def by auto
  qed
qed

lemma exclusive_step:
  assumes "exclusive c" and "apart c e"
  shows "exclusive (step cfg e c)"
proof (cases e)
  case (CallStart env)
  from assms show ?thesis
    unfolding CallStart by (simp add: apart_def exclusive_start del: step.simps)
next
  case (CallStop env)
  from assms show ?thesis
    unfolding CallStop by (simp add: apart_def exclusive_stop del: step.simps)
next
  case (Resume i)
  show ?thesis
  proof (cases "i < length (tasks c)")
    case True
    with assms(1) show ?thesis
      unfolding Resume by (rule exclusive_resume)
  next
    case False
    with assms(1) show ?thesis
      by (simp add: Resume)
  qed
qed

lemma reach_exclusive: "reach cfg apart c \<Longrightarrow> exclusive c"
  by (induction rule: reach.induct) (simp_all add: exclusive_mount exclusive_step del: step.simps)

lemma reach_awaiting_apart: "reach native_cfg apart awaiting_config"
proof -
  have "allowed apart native_cfg
          [Resume 0, CallStart start_ok, Resume 0, Resume 0, Resume 0] (mount (Resolved True))"
    by (simp add: apart_def mount_def init_hook_def start_call_def Let_def is_stop_def)
  from reach_exec [OF reach_mount this]
  have c: "reach native_cfg apart capturing_config"
    by (simp only: capturing_config_def)
  have "allowed apart native_cfg [CallStop stop_ok, Resume 0, Resume 0] capturing_config"
    by (simp add: apart_def capturing_config_eq)
  from reach_exec [OF c this] show ?thesis
    by (simp only: awaiting_config_def)
qed

lemma send_call_sound:
  assumes "send_call cfg env uri s = (s', t')"
  shows "soundRef s' = soundRef s \<and> loaded s' = loaded s
       \<and> (\<forall>e f old. t' \<noteq> Some (Send_unload e f old)) \<and> (\<forall>e f. t' \<noteq> Some (Send_create e f))"
  using assms
  by (auto simp: send_call_def send_post_def fail_send_def Let_def split: if_splits)

lemma removeAll_only: "set l \<subseteq> {x} \<Longrightarrow> removeAll x l = []"
  by (induction l) auto

lemma resume_stop_sound:
  assumes "is_stop t" and "resume cfg t s = (s', t')"
    and "set (loaded s) \<subseteq> set_option (soundRef s)" and "distinct (loaded s)"
    and "\<forall>e f old. t = Send_unload e f old \<longrightarrow> soundRef s = Some old"
    and "\<forall>e f. t = Send_create e f \<longrightarrow> loaded s = []"
  shows "set (loaded s') \<subseteq> set_option (soundRef s') \<and> distinct (loaded s')
       \<and> (\<forall>e f old. t' = Some (Send_unload e f old) \<longrightarrow> soundRef s' = Some old)
       \<and> (\<forall>e f. t' = Some (Send_create e f) \<longrightarrow> loaded s' = [])"
  using assms
  by (cases t)
     (auto simp: is_stop_def fail_stop_def fail_send_def finish_send_def send_post_def Let_def
        removeAll_only distinct_removeAll
        split: outcome.splits if_splits option.splits dest!: send_call_sound)

lemma single_sound_mount: "single_sound (mount r)"
  by (simp add: single_sound_def mount_def init_hook_def is_stop_def)

lemma single_sound_start:
  assumes "single_sound c"
  shows "single_sound (step cfg (CallStart env) c)"
proof -
  obtain s' t' where r: "start_call env (st c) = (s', t')"
    by (cases "start_call env (st c)")
  from start_call_effect [OF r] assms show ?thesis
    by (cases t') (auto simp: single_sound_def r is_stop_def)
qed

lemma single_sound_stop:
  assumes "single_sound c" and "list_all (\<lambda>t. \<not> is_stop t) (tasks c)"
  shows "single_sound (step cfg (CallStop env) c)"
proof -
  obtain s' t' where r: "stop_call env (st c) = (s', t')"
    by (cases "stop_call env (st c)")
  from assms(2) have none: "filter is_stop (tasks c) = []"
    by (simp add: filter_empty_conv list_all_iff)
  have new: "t' = None \<or> (\<exists>e. t' = Some (Stop_unload e))"
    using r by (auto simp: stop_call_def Let_def split: option.splits)
  from stop_call_effect [OF r] assms(1) none new show ?thesis
    by (cases t') (auto simp: single_sound_def r)
qed

lemma single_sound_resume:
  assumes inv: "single_sound c" and i: "i < length (tasks c)"
  shows "single_sound (step cfg (Resume i) c)"
proof -
  obtain s' t' where r: "resume cfg (tasks c ! i) (st c) = (s', t')"
    by (cases "resume cfg (tasks c ! i) (st c)")
  define ts where "ts = take i (tasks c) @ suspended t' @ drop (Suc i) (tasks c)"
  have c': "step cfg (Resume i) c = \<lparr> st = s', tasks = ts \<rparr>"
    unfolding ts_def by (rule step_resume [OF i r])
  have mem: "tasks c ! i \<in> set (tasks c)"
    using i by simp
  have sub: "set ts \<subseteq> set (tasks c) \<union> set (suspended t')"
    unfolding ts_def by (rule replace_set)
  from inv have one: "length (filter is_stop (tasks c)) \<le> 1"
    by (simp add: single_sound_def)
  have cnt: "length (filter is_stop ts) + (if is_stop (tasks c ! i) then 1 else 0)
      = length (filter is_stop (tasks c)) + length (filter is_stop (suspended t'))"
    unfolding ts_def by (rule replace_count [OF i])
  have only: "x \<in> set (suspended t')"
    if "is_stop (tasks c ! i)" and "x \<in> set ts" and "is_stop x" for x
    using replace_only [OF i that(1) one that(2) [unfolded ts_def] that(3)] .
  have kinds [simp]: "is_stop (Send_unload e f old)" "is_stop (Send_create e f)" for e f old
    by (simp_all add: is_stop_def)
  show ?thesis
  proof (cases "is_stop (tasks c ! i)")
    case False
    then have "is_probe (tasks c ! i) \<or> is_start (tasks c ! i)"
      by (simp add: is_stop_def)
    then have same: "soundRef s' = soundRef (st c) \<and> loaded s' = loaded (st c)"
      and new: "\<forall>x \<in> set (suspended t'). \<not> is_stop x"
      using resume_probe [OF _ r] resume_start [OF _ r]
      by (cases t'; auto dest: start_not_probe simp: is_stop_def)+
    from new have "filter is_stop (suspended t') = []"
      by (simp add: filter_empty_conv)
    with cnt False one have f1: "length (filter is_stop ts) \<le> 1"
      by simp
    have old: "x \<in> set (tasks c)" if "x \<in> set ts" and "is_stop x" for x
      using that sub new by auto
    from inv same f1 old show ?thesis
      unfolding c' single_sound_def
      by (auto dest!: old)
  next
    case True
    from inv mem have pre:
      "\<forall>e f old. tasks c ! i = Send_unload e f old \<longrightarrow> soundRef (st c) = Some old"
      "\<forall>e f. tasks c ! i = Send_create e f \<longrightarrow> loaded (st c) = []"
      by (auto simp: single_sound_def)
    from inv have pre2: "set (loaded (st c)) \<subseteq> set_option (soundRef (st c))"
      "distinct (loaded (st c))"
      by (simp_all add: single_sound_def)
    note eff = resume_stop_sound [OF True r pre2 pre]
    have "length (suspended t') \<le> 1"
      by (cases t') simp_all
    then have "length (filter is_stop (suspended t')) \<le> 1"
      by (rule order_trans [OF length_filter_le])
    with cnt True one have f1: "length (filter is_stop ts) \<le> 1"
      by simp
    have new: "t' = Some x" if "x \<in> set ts" and "is_stop x" for x
      using only [OF True that] by (cases t') simp_all
    from eff f1 show ?thesis
      unfolding c' single_sound_def
      by (auto dest!: new)
  qed
qed

lemma single_sound_step:
  assumes "single_sound c" and "one_stop_at_a_time c e"
  shows "single_sound (step cfg e c)"
proof (cases e)
  case (CallStart env)
  from assms show ?thesis
    unfolding CallStart by (simp add: single_sound_start del: step.simps)
next
  case (CallStop env)
  from assms show ?thesis
    unfolding CallStop by (simp add: one_stop_at_a_time_def single_sound_stop del: step.simps)
next
  case (Resume i)
  show ?thesis
  proof (cases "i < length (tasks c)")
    case True
    with assms(1) show ?thesis
      unfolding Resume by (rule single_sound_resume)
  next
    case False
    with assms(1) show ?thesis
      by (simp add: Resume)
  qed
qed

lemma reach_single_sound: "reach cfg one_stop_at_a_time c \<Longrightarrow> single_sound c"
  by (induction rule: reach.induct)
     (simp_all add: single_sound_mount single_sound_step del: step.simps)

lemma played_config_eq:
  "st played_config =
      \<lparr> isRecording = False, isResponding = False, isAudioAvailable = True,
              recordingRef = Some 0, soundRef = Some 1,
              console = [Log ''Starting recording...'' [], LogStatus True,
                         Log ''Recording URI:'' ''rec'',
                         Log ''Sending to API:'' ''http://api/talk''],
              calls = [RequestPermissions, RequestPermissions, SetAudioMode recording_mode,
                       RecordingCreate, StopAndUnload 0, GetStatus 0,
                       AxiosPost ''http://api/talk''
                         (UriPart ''rec'' ''recording.mp3'' ''audio/mpeg'', context_prompt),
                       ReadAsDataURL [7, 8], WriteFile ''cache/response.mp3'' ''Bwg='' Base64,
                       SoundCreate ''cache/response.mp3'', SetAudioMode playback_mode,
                       SoundPlay 1],
              files = [''cache/response.mp3'' \<mapsto> (''Bwg='', Base64)], loaded = [1],
              nextHandle = 2 \<rparr>"
  "tasks played_config = []"
  by (simp_all add: played_config_def capturing_config_eq capturing_hook_eq
      stop_call_def send_call_def send_post_def finish_send_def falsy_def template_def
      called_def console_add_def Let_def numeral_2_eq_2)

lemma recapturing_config_eq:
  "tasks recapturing_config = []"
  "soundRef (st recapturing_config) = Some 1"
  "loaded (st recapturing_config) = [1]"
  "recordingRef (st recapturing_config) = Some 2"
  "nextHandle (st recapturing_config) = 3"
  "isAudioAvailable (st recapturing_config)"
  by (simp_all add: recapturing_config_def played_config_eq start_call_def Let_def
      numeral_2_eq_2 numeral_3_eq_3)

lemma reloading_config_eq:
  "tasks reloading_config = [Send_create stop_ok ''cache/response.mp3'']"
  "soundRef (st reloading_config) = Some 1"
  "loaded (st reloading_config) = []"
  "nextHandle (st reloading_config) = 3"
  "count_list (calls (st reloading_config)) (SoundUnload 1) = 1"
  by (simp_all add: reloading_config_def recapturing_config_def played_config_eq
      start_call_def stop_call_def send_call_def send_post_def falsy_def template_def
      Let_def numeral_2_eq_2 numeral_3_eq_3)

lemma replayed_config_eq:
  "soundRef (st replayed_config) = Some 3"
  "loaded (st replayed_config) = [3]"
  "tasks replayed_config = []"
  by (simp_all add: replayed_config_def reloading_config_eq finish_send_def Let_def)

lemma reach_exec_quiet:
  "reach cfg pol c \<Longrightarrow> \<forall>e \<in> set es. \<forall>c'. pol c' e \<Longrightarrow> reach cfg pol (exec cfg es c)"
  by (induction es arbitrary: c) (auto intro: reach_step)

lemma reach_reloading: "reach native_cfg one_stop_at_a_time reloading_config"
proof -
  have c: "reach native_cfg one_stop_at_a_time capturing_config"
    unfolding capturing_config_def
    by (rule reach_exec_quiet [OF reach_mount]) (simp add: one_stop_at_a_time_def)
  have "one_stop_at_a_time capturing_config (CallStop stop_ok)"
    by (simp add: one_stop_at_a_time_def capturing_config_eq)
  with c have "reach native_cfg one_stop_at_a_time
      (step native_cfg (CallStop stop_ok) capturing_config)"
    by (rule reach_step)
  then have "reach native_cfg one_stop_at_a_time
      (exec native_cfg [Resume 0, Resume 0, Resume 0, Resume 0, Resume 0, Resume 0,
        Resume 0, Resume 0] (step native_cfg (CallStop stop_ok) capturing_config))"
    by (rule reach_exec_quiet) (simp add: one_stop_at_a_time_def)
  then have "reach native_cfg one_stop_at_a_time played_config"
    by (simp only: played_config_def exec.simps)
  then have r: "reach native_cfg one_stop_at_a_time recapturing_config"
    unfolding recapturing_config_def
    by (rule reach_exec_quiet) (simp add: one_stop_at_a_time_def)
  have "one_stop_at_a_time recapturing_config (CallStop stop_ok)"
    by (simp add: one_stop_at_a_time_def recapturing_config_eq)
  with r have "reach native_cfg one_stop_at_a_time
      (step native_cfg (CallStop stop_ok) recapturing_config)"
    by (rule reach_step)
  then have "reach native_cfg one_stop_at_a_time
      (exec native_cfg [Resume 0, Resume 0, Resume 0, Resume 0, Resume 0, Resume 0]
         (step native_cfg (CallStop stop_ok) recapturing_config))"
    by (rule reach_exec_quiet) (simp add: one_stop_at_a_time_def)
  then show ?thesis
    by (simp only: reloading_config_def exec.simps)
qed

lemma reach_replayed: "reach native_cfg one_stop_at_a_time replayed_config"
  unfolding replayed_config_def
  by (rule reach_exec_quiet [OF reach_reloading]) (simp add: one_stop_at_a_time_def)

subsection \<open>A rejected request\<close>

lemma post_rejected_sound:
  "r_post env = Rejected e \<Longrightarrow>
     soundRef (fst (sendToAI_try cfg env uri s)) = soundRef s \<and>
     loaded (fst (sendToAI_try cfg env uri s)) = loaded s \<and>
     files (fst (sendToAI_try cfg env uri s)) = files s \<and>
     nextHandle (fst (sendToAI_try cfg env uri s)) = nextHandle s"
  by (simp add: sendToAI_try_def sendToAI_post_def await_def Let_def split: outcome.split)

lemma post_rejected_stop:
  "r_post env = Rejected e \<Longrightarrow>
     soundRef (fst (stopRecording cfg env s)) = soundRef s \<and>
     loaded (fst (stopRecording cfg env s)) = loaded s \<and>
     files (fst (stopRecording cfg env s)) = files s \<and>
     nextHandle (fst (stopRecording cfg env s)) = nextHandle s"
  by (simp add: stopRecording_fst stopRecording_try_def stopRecording_finalize_def
      stopRecording_send_def sendToAI_def post_rejected_sound await_def Let_def
      split: option.split outcome.split)

lemma reach_played: "reach native_cfg anytime played_config"
  unfolding played_config_def
  by (rule reach_exec [OF reach_capturing allowed_anytime])

lemma reach_two_sounds: "reach native_cfg anytime two_sounds_config"
  unfolding two_sounds_config_def
  by (rule reach_exec [OF reach_overlapped allowed_anytime])

lemma two_sounds_config_eq:
  "loaded (st two_sounds_config) = [2, 3]"
  "soundRef (st two_sounds_config) = Some 3"
  "count_list (calls (st two_sounds_config)) (StopAndUnload 0) = 1"
  "count_list (calls (st two_sounds_config)) (StopAndUnload 1) = 1"
  "count_list (calls (st two_sounds_config)) (SoundCreate ''cache/response.mp3'') = 2"
  by (simp_all add: two_sounds_config_def overlapped_config_eq
      stop_call_def send_call_def send_post_def falsy_def template_def Let_def)

lemma stop_call_session:
  "recordingRef s = Some h \<Longrightarrow>
     stop_call env s = (called (StopAndUnload h) (s\<lparr> isRecording := False \<rparr>), Some (Stop_unload env))"
  by (simp add: stop_call_def Let_def)

section \<open>The claims\<close>

text \<open>
  Claim C1, as the code has it. When starts and stops are kept apart (\<open>startRecording\<close>
  is not called while a \<open>stopRecording\<close> is still suspended, nor \<open>stopRecording\<close> while a
  \<open>startRecording\<close> is), \<open>isRecording\<close> and \<open>isResponding\<close> are never both true, in any
  configuration that can be reached, between any two resumptions.
\<close>

theorem flags_exclusive_apart:
  assumes "reach cfg apart c"
  shows "\<not> (isRecording (st c) \<and> isResponding (st c))"
  using reach_exclusive [OF assms]
  by (cases "\<forall>t \<in> set (tasks c). \<not> is_stop t") (auto simp: exclusive_def)

theorem flags_exclusive_apart_witness:
  "reach native_cfg apart awaiting_config
   \<and> isResponding (st awaiting_config)
   \<and> \<not> (isRecording (st awaiting_config) \<and> isResponding (st awaiting_config))"
proof -
  have "isResponding (st awaiting_config)"
    by (simp add: awaiting_config_eq)
  with reach_awaiting_apart flags_exclusive_apart [OF reach_awaiting_apart]
  show ?thesis
    by blast
qed

text \<open>
  Claim C1 as stated includes the states reached by calling \<open>startRecording\<close> while the
  reply of an earlier interaction is awaited. \<open>startRecording\<close> looks at neither flag:
  called while \<open>axios.post\<close> is pending and run to its end, it sets \<open>isRecording\<close> while
  \<open>isResponding\<close> is still true.
\<close>

theorem flags_both_true_counterexample:
  "reach native_cfg anytime overlapped_config
   \<and> overlapped_config =
       exec native_cfg [CallStart start_ok, Resume 1, Resume 1, Resume 1] awaiting_config
   \<and> isResponding (st awaiting_config)
   \<and> tasks awaiting_config = [Send_post stop_ok]
   \<and> isRecording (st overlapped_config) \<and> isResponding (st overlapped_config)"
proof -
  have "isResponding (st awaiting_config)"
    and "tasks awaiting_config = [Send_post stop_ok]"
    and "isRecording (st overlapped_config) \<and> isResponding (st overlapped_config)"
    by (simp_all add: awaiting_config_eq overlapped_config_eq)
  with reach_overlapped overlapped_config_def show ?thesis
    by blast
qed

text \<open>
  Claim C2, as the code has it. \<open>startRecording\<close> never looks at \<open>isRecording\<close>,
  \<open>isResponding\<close> or \<open>recordingRef\<close>. When capture is available, permission is granted
  and the audio mode and \<open>Recording.createAsync\<close> resolve, it stores the new session in
  \<open>recordingRef\<close> in place of whatever was held and sets \<open>isRecording\<close>; in every other
  case it leaves \<open>recordingRef\<close> and \<open>isRecording\<close> as they were. It never changes
  \<open>isResponding\<close> and never rejects.
\<close>

theorem startRecording_unguarded:
  "(isAudioAvailable s \<and> r_permission env = Resolved True
      \<and> r_recordMode env = Resolved () \<and> r_create env = Resolved ()
     \<longrightarrow> recordingRef (fst (startRecording env s)) = Some (nextHandle s)
         \<and> isRecording (fst (startRecording env s))
         \<and> last (calls (fst (startRecording env s))) = RecordingCreate)
   \<and> (\<not> (isAudioAvailable s \<and> r_permission env = Resolved True
      \<and> r_recordMode env = Resolved () \<and> r_create env = Resolved ())
     \<longrightarrow> recordingRef (fst (startRecording env s)) = recordingRef s
         \<and> isRecording (fst (startRecording env s)) = isRecording s
         \<and> nextHandle (fst (startRecording env s)) = nextHandle s)
   \<and> isResponding (fst (startRecording env s)) = isResponding s
   \<and> snd (startRecording env s) = None"
  by (simp add: startRecording_def startRecording_try_def await_def Let_def
      split: outcome.split)

theorem startRecording_unguarded_witness:
  "isAudioAvailable (st awaiting_config) \<and> r_permission start_ok = Resolved True
   \<and> r_recordMode start_ok = Resolved () \<and> r_create start_ok = Resolved ()
   \<and> isResponding (st awaiting_config)
   \<and> recordingRef (st awaiting_config) = Some 0
   \<and> recordingRef (fst (startRecording start_ok (st awaiting_config))) = Some 1
   \<and> isRecording (fst (startRecording start_ok (st awaiting_config)))
   \<and> isResponding (fst (startRecording start_ok (st awaiting_config)))
   \<and> r_create (start_ok\<lparr> r_create := Rejected (ExternalError ''busy'') \<rparr>) \<noteq> Resolved ()
   \<and> recordingRef (fst (startRecording (start_ok\<lparr> r_create := Rejected (ExternalError ''busy'') \<rparr>)
         (st awaiting_config))) = Some 0
   \<and> \<not> isRecording (fst (startRecording (start_ok\<lparr> r_create := Rejected (ExternalError ''busy'') \<rparr>)
         (st awaiting_config)))"
proof -
  have h: "isAudioAvailable (st awaiting_config)" "isResponding (st awaiting_config)"
    "recordingRef (st awaiting_config) = Some 0" "nextHandle (st awaiting_config) = 1"
    "\<not> isRecording (st awaiting_config)"
    by (simp_all add: awaiting_config_eq)
  with startRecording_unguarded [of "st awaiting_config" start_ok]
    startRecording_unguarded [of "st awaiting_config"
      "start_ok\<lparr> r_create := Rejected (ExternalError ''busy'') \<rparr>"]
  show ?thesis
    by simp
qed

text \<open>
  Claim C2 as stated says that a call during an active interaction acquires no second
  session and does not replace the one held. Called while the reply of the first
  interaction is awaited, \<open>startRecording\<close> calls \<open>Recording.createAsync\<close> a second time
  and replaces the handle in \<open>recordingRef\<close>, the first interaction still being
  suspended at its request.
\<close>

theorem second_session_counterexample:
  "reach native_cfg anytime awaiting_config
   \<and> \<not> isRecording (st awaiting_config) \<and> isResponding (st awaiting_config)
   \<and> recordingRef (st awaiting_config) = Some 0
   \<and> count_list (calls (st awaiting_config)) RecordingCreate = 1
   \<and> overlapped_config =
       exec native_cfg [CallStart start_ok, Resume 1, Resume 1, Resume 1] awaiting_config
   \<and> recordingRef (st overlapped_config) = Some 1
   \<and> count_list (calls (st overlapped_config)) RecordingCreate = 2
   \<and> tasks overlapped_config = [Send_post stop_ok]"
proof -
  have "\<not> isRecording (st awaiting_config) \<and> isResponding (st awaiting_config)
   \<and> recordingRef (st awaiting_config) = Some 0
   \<and> count_list (calls (st awaiting_config)) RecordingCreate = 1"
    by (simp add: awaiting_config_eq)
  moreover have "recordingRef (st overlapped_config) = Some 1
   \<and> count_list (calls (st overlapped_config)) RecordingCreate = 2
   \<and> tasks overlapped_config = [Send_post stop_ok]"
    by (simp add: overlapped_config_eq)
  ultimately show ?thesis
    using reach_awaiting overlapped_config_def by blast
qed

text \<open>
  Claim C3, as the code has it. On a native platform, a \<open>stopRecording\<close> on a held
  session whose capture is finalized, whose request returns a reply (some bytes, read by
  the \<open>FileReader\<close> as their data URL) and whose write resolves, leaves exactly one
  written file: the path \<open>cacheDirectory + 'response.mp3'\<close> holds the base64 text of the
  reply with \<open>EncodingType.Base64\<close>, that is the bytes of the reply, in place of whatever
  it held; every other path is as before, and the run has made that one write. On the
  web no run of \<open>stopRecording\<close> writes or changes any file.
\<close>

theorem reply_cached_on_native_only:
  "(os cfg = Native \<and> \<not> falsy (apiUrl cfg) \<and> recordingRef s \<noteq> None
      \<and> r_stopAndUnload env = Resolved () \<and> \<not> falsy (r_getURI env)
      \<and> r_getStatus env = Resolved True
      \<and> r_post env = Resolved reply \<and> reply \<noteq> [] \<and> (\<forall>b \<in> set reply. b < 256)
      \<and> r_reader env reply = LoadEnd (Some (data_url mime reply)) \<and> CHR '','' \<notin> set mime
      \<and> r_write env = Resolved ()
     \<longrightarrow> files (fst (stopRecording cfg env s)) =
           (files s)(template (cacheDirectory cfg) @ ''response.mp3'' \<mapsto> (base64 reply, Base64))
       \<and> Option.bind
            (files (fst (stopRecording cfg env s)) (template (cacheDirectory cfg) @ ''response.mp3''))
            file_bytes = Some reply
       \<and> filter is_write (calls (fst (stopRecording cfg env s))) =
           filter is_write (calls s)
             @ [WriteFile (template (cacheDirectory cfg) @ ''response.mp3'') (base64 reply) Base64])
   \<and> (os cfg = Web
     \<longrightarrow> files (fst (stopRecording cfg env s)) = files s
       \<and> filter is_write (calls (fst (stopRecording cfg env s))) = filter is_write (calls s))"
proof (intro conjI impI)
  assume h: "os cfg = Native \<and> \<not> falsy (apiUrl cfg) \<and> recordingRef s \<noteq> None
      \<and> r_stopAndUnload env = Resolved () \<and> \<not> falsy (r_getURI env)
      \<and> r_getStatus env = Resolved True
      \<and> r_post env = Resolved reply \<and> reply \<noteq> [] \<and> (\<forall>b \<in> set reply. b < 256)
      \<and> r_reader env reply = LoadEnd (Some (data_url mime reply)) \<and> CHR '','' \<notin> set mime
      \<and> r_write env = Resolved ()"
  then have b: "blobToBase64 (r_reader env reply) = Resolved (base64 reply)"
    by (simp add: blobToBase64_data_url)
  from h have "os cfg = Native" "\<not> falsy (apiUrl cfg)" "recordingRef s \<noteq> None"
    "r_stopAndUnload env = Resolved ()" "\<not> falsy (r_getURI env)"
    "r_getStatus env = Resolved True" "r_post env = Resolved reply"
    "r_write env = Resolved ()"
    by simp_all
  note n = native_stop [OF this(1-7) b this(8)]
  from n show "files (fst (stopRecording cfg env s)) =
           (files s)(template (cacheDirectory cfg) @ ''response.mp3'' \<mapsto> (base64 reply, Base64))"
    by simp
  from n h show "Option.bind
            (files (fst (stopRecording cfg env s)) (template (cacheDirectory cfg) @ ''response.mp3''))
            file_bytes = Some reply"
    by (simp add: file_bytes_base64)
  from n show "filter is_write (calls (fst (stopRecording cfg env s))) =
           filter is_write (calls s)
             @ [WriteFile (template (cacheDirectory cfg) @ ''response.mp3'') (base64 reply) Base64]"
    by simp
next
  assume "os cfg = Web"
  from web_stop_writes [OF this]
  show "files (fst (stopRecording cfg env s)) = files s"
    and "filter is_write (calls (fst (stopRecording cfg env s))) = filter is_write (calls s)"
    by simp_all
qed

theorem reply_cached_on_native_only_witness:
  "os native_cfg = Native \<and> \<not> falsy (apiUrl native_cfg)
   \<and> recordingRef (capturing_hook\<lparr> files := [''cache/response.mp3'' \<mapsto> (''AAAA'', Base64)] \<rparr>) \<noteq> None
   \<and> r_stopAndUnload stop_ok = Resolved () \<and> \<not> falsy (r_getURI stop_ok)
   \<and> r_getStatus stop_ok = Resolved True \<and> r_post stop_ok = Resolved [7, 8]
   \<and> [7, 8] \<noteq> ([] :: nat list) \<and> (7 :: nat) < 256 \<and> (8 :: nat) < 256
   \<and> r_reader stop_ok [7, 8] = LoadEnd (Some (data_url ''audio/mpeg'' [7, 8]))
   \<and> CHR '','' \<notin> set ''audio/mpeg''
   \<and> r_write stop_ok = Resolved ()
   \<and> files (fst (stopRecording native_cfg stop_ok
        (capturing_hook\<lparr> files := [''cache/response.mp3'' \<mapsto> (''AAAA'', Base64)] \<rparr>)))
      = [''cache/response.mp3'' \<mapsto> (''Bwg='', Base64)]
   \<and> file_bytes (''Bwg='', Base64) = Some [7, 8]
   \<and> os web_cfg = Web
   \<and> files (fst (stopRecording web_cfg stop_ok
        (capturing_hook\<lparr> files := [''cache/response.mp3'' \<mapsto> (''AAAA'', Base64)] \<rparr>)))
      = [''cache/response.mp3'' \<mapsto> (''AAAA'', Base64)]"
proof -
  let ?s = "capturing_hook\<lparr> files := [''cache/response.mp3'' \<mapsto> (''AAAA'', Base64)] \<rparr>"
  have h: "recordingRef ?s \<noteq> None"
    by (simp add: capturing_hook_eq)
  have f: "\<not> falsy (apiUrl native_cfg)" "\<not> falsy (r_getURI stop_ok)"
    by (simp_all add: falsy_def)
  have n: "files (fst (stopRecording native_cfg stop_ok ?s))
      = [''cache/response.mp3'' \<mapsto> (''Bwg='', Base64)]"
    using reply_cached_on_native_only [of native_cfg ?s stop_ok "[7, 8]" "''audio/mpeg''"] h f
    by (simp add: template_def base64_reply)
  have d: "file_bytes (''Bwg='', Base64) = Some [7, 8]"
    using file_bytes_base64 [of "[7, 8]"] by (simp add: base64_reply)
  have w: "files (fst (stopRecording web_cfg stop_ok ?s))
      = [''cache/response.mp3'' \<mapsto> (''AAAA'', Base64)]"
    using reply_cached_on_native_only [of web_cfg ?s stop_ok "[7, 8]" "''audio/mpeg''"]
    by simp
  from h f n d w show ?thesis
    by simp
qed

text \<open>
  Claim C3 as stated speaks of the platform that is not native. There (on the web) a
  full successful interaction starts playback from an object URL and writes no file.
\<close>

theorem web_reply_not_cached_counterexample:
  "os web_cfg = Web
   \<and> playback_started stop_ok (last (calls (fst (stopRecording web_cfg stop_ok capturing_hook))))
   \<and> new_errors capturing_hook (fst (stopRecording web_cfg stop_ok capturing_hook)) = []
   \<and> files (fst (stopRecording web_cfg stop_ok capturing_hook))
        (template (cacheDirectory web_cfg) @ ''response.mp3'') = None
   \<and> files (fst (stopRecording web_cfg stop_ok capturing_hook)) = files capturing_hook"
  by (simp add: capturing_hook_eq stopRecording_fst stopRecording_try_def
      stopRecording_finalize_def stopRecording_send_def sendToAI_def sendToAI_try_def
      sendToAI_post_def sendToAI_play_web_def 
      falsy_def template_def Let_def playback_started_def new_errors_def)

text \<open>
  Claim C4. Whenever a \<open>stopRecording\<close> on a held session does not end by starting
  playback (some stage after the capture has stopped failed: finalizing, the request,
  decoding, or preparing playback), \<open>isResponding\<close> and \<open>isRecording\<close> end false, the
  run has written exactly one caught error to the console, and the promise is fulfilled;
  the promise of \<open>startRecording\<close> is always fulfilled as well.
\<close>

theorem failure_returns_to_idle:
  assumes "recordingRef s \<noteq> None"
    and "\<not> playback_started env (last (calls (fst (stopRecording cfg env s))))"
  shows "\<not> isResponding (fst (stopRecording cfg env s))
       \<and> \<not> isRecording (fst (stopRecording cfg env s))
       \<and> length (new_errors s (fst (stopRecording cfg env s))) = 1
       \<and> snd (stopRecording cfg env s) = None
       \<and> snd (startRecording senv s0) = None"
  using assms stopRecording_errors [OF assms(1), of cfg env]
    new_errors_length [OF stopRecording_console_prefix [of s cfg env]]
  by (simp add: stopRecording_cleared)

theorem failure_returns_to_idle_witness:
  "recordingRef capturing_hook \<noteq> None
   \<and> \<not> playback_started (stop_ok\<lparr> r_write := Rejected (ExternalError ''disk full'') \<rparr>)
        (last (calls (fst (stopRecording native_cfg
           (stop_ok\<lparr> r_write := Rejected (ExternalError ''disk full'') \<rparr>) capturing_hook))))
   \<and> \<not> isResponding (fst (stopRecording native_cfg
           (stop_ok\<lparr> r_write := Rejected (ExternalError ''disk full'') \<rparr>) capturing_hook))
   \<and> new_errors capturing_hook (fst (stopRecording native_cfg
           (stop_ok\<lparr> r_write := Rejected (ExternalError ''disk full'') \<rparr>) capturing_hook))
       = [Error ''Failed to communicate with AI:'' (ExternalError ''disk full'')]"
  using failure_returns_to_idle [of capturing_hook
      "stop_ok\<lparr> r_write := Rejected (ExternalError ''disk full'') \<rparr>" native_cfg start_ok init_hook]
  by (simp add: capturing_hook_eq stopRecording_fst stopRecording_try_def
      stopRecording_finalize_def stopRecording_send_def sendToAI_def sendToAI_try_def
      sendToAI_post_def sendToAI_play_native_def
      falsy_def template_def Let_def sendToAI_catch_def isAxiosError_def
      playback_started_def new_errors_def)

text \<open>
  Claim C5. When \<open>axios.post\<close> rejects with an HTTP status, a \<open>stopRecording\<close> on a held
  session ends with \<open>isRecording\<close> and \<open>isResponding\<close> false, and \<open>soundRef\<close> holds what
  it held before: no \<open>Sound\<close> is created, loaded or unloaded.
\<close>

theorem transport_failure_keeps_sound:
  assumes "r_post env = Rejected (AxiosError status body)" and "recordingRef s \<noteq> None"
  shows "\<not> isRecording (fst (stopRecording cfg env s))
       \<and> \<not> isResponding (fst (stopRecording cfg env s))
       \<and> soundRef (fst (stopRecording cfg env s)) = soundRef s
       \<and> loaded (fst (stopRecording cfg env s)) = loaded s
       \<and> nextHandle (fst (stopRecording cfg env s)) = nextHandle s"
  using assms by (simp add: post_rejected_stop stopRecording_cleared)

theorem transport_failure_keeps_sound_witness:
  "r_post (stop_ok\<lparr> r_post := Rejected (AxiosError (Some 500) None) \<rparr>)
      = Rejected (AxiosError (Some 500) None)
   \<and> recordingRef capturing_hook \<noteq> None
   \<and> ErrorStatus (Some 500) \<in> set (console (fst (stopRecording native_cfg
         (stop_ok\<lparr> r_post := Rejected (AxiosError (Some 500) None) \<rparr>) capturing_hook)))
   \<and> \<not> isRecording (fst (stopRecording native_cfg
         (stop_ok\<lparr> r_post := Rejected (AxiosError (Some 500) None) \<rparr>) capturing_hook))
   \<and> \<not> isResponding (fst (stopRecording native_cfg
         (stop_ok\<lparr> r_post := Rejected (AxiosError (Some 500) None) \<rparr>) capturing_hook))
   \<and> soundRef (fst (stopRecording native_cfg
         (stop_ok\<lparr> r_post := Rejected (AxiosError (Some 500) None) \<rparr>) capturing_hook)) = None"
  using transport_failure_keeps_sound [of "stop_ok\<lparr> r_post := Rejected (AxiosError (Some 500) None) \<rparr>"
      "Some 500" None capturing_hook native_cfg]
  by (simp add: capturing_hook_eq stopRecording_fst stopRecording_try_def
      stopRecording_finalize_def stopRecording_send_def sendToAI_def sendToAI_try_def
      sendToAI_post_def falsy_def template_def Let_def sendToAI_catch_def isAxiosError_def
      response_status_def response_data_def)

text \<open>
  Claim C6. In every reachable configuration in which \<open>isAudioAvailable\<close> is false, a
  call of \<open>startRecording\<close> returns at its first check: \<open>isRecording\<close> is false
  afterwards, \<open>recordingRef\<close> is empty, no object has been created, no call has gone to
  the platform, nothing is left suspended, and the promise is fulfilled.
\<close>

theorem unavailable_start_does_nothing:
  assumes "reach cfg pol c" and "\<not> isAudioAvailable (st c)"
  shows "\<not> isRecording (st (step cfg (CallStart env) c))
       \<and> recordingRef (st (step cfg (CallStart env) c)) = None
       \<and> nextHandle (st (step cfg (CallStart env) c)) = 0
       \<and> calls (st (step cfg (CallStart env) c)) = calls (st c)
       \<and> tasks (step cfg (CallStart env) c) = tasks c
       \<and> startRecording env (st c) = (st (step cfg (CallStart env) c), None)"
proof -
  from reach_settled [OF assms(1)] assms(2)
  have "recordingRef (st c) = None \<and> \<not> isRecording (st c) \<and> nextHandle (st c) = 0"
    by (simp add: settled_def)
  moreover have "startRecording env (st c) = (fst (start_call env (st c)), None)"
    using run_start [of cfg env "st c"] assms(2)
    by (simp add: start_call_unavailable prod_eq_iff)
  ultimately show ?thesis
    using assms(2) by (simp add: start_call_unavailable)
qed

theorem unavailable_start_does_nothing_witness:
  "reach native_cfg anytime unavailable_config
   \<and> \<not> isAudioAvailable (st unavailable_config)
   \<and> \<not> isRecording (st (step native_cfg (CallStart start_ok) unavailable_config))
   \<and> recordingRef (st (step native_cfg (CallStart start_ok) unavailable_config)) = None
   \<and> calls (st (step native_cfg (CallStart start_ok) unavailable_config)) = [RequestPermissions]"
proof -
  have h: "\<not> isAudioAvailable (st unavailable_config)"
    and c: "calls (st unavailable_config) = [RequestPermissions]"
    by (simp_all add: unavailable_config_eq init_hook_def)
  from unavailable_start_does_nothing [OF reach_unavailable h, of start_ok] c
  have "\<not> isRecording (st (step native_cfg (CallStart start_ok) unavailable_config))
   \<and> recordingRef (st (step native_cfg (CallStart start_ok) unavailable_config)) = None
   \<and> calls (st (step native_cfg (CallStart start_ok) unavailable_config)) = [RequestPermissions]"
    by (simp del: step.simps)
  with reach_unavailable h show ?thesis
    by blast
qed




text \<open>
  Claim C8. When the endpoint \<open>EXPO_PUBLIC_API_URL\<close> is absent, \<open>sendToAI\<close> throws its
  configuration error before anything else, logs it and clears \<open>isResponding\<close>; a whole
  \<open>stopRecording\<close> on a held session then makes no network call, ends with both flags
  false and rejects nothing.
\<close>

theorem missing_endpoint_no_request:
  assumes "apiUrl cfg = None" and "recordingRef s \<noteq> None"
  shows "sendToAI cfg env uri s =
           ((console_add (Error ''Failed to communicate with AI:'' ApiUrlNotDefined) s)
               \<lparr> isResponding := False \<rparr>, None)
         \<and> filter is_request (calls (fst (stopRecording cfg env s))) = filter is_request (calls s)
         \<and> \<not> isRecording (fst (stopRecording cfg env s))
         \<and> \<not> isResponding (fst (stopRecording cfg env s))
         \<and> snd (stopRecording cfg env s) = None"
proof -
  from assms(1) have f: "falsy (apiUrl cfg)"
    by (simp add: falsy_def)
  then have "sendToAI cfg env uri s =
           ((console_add (Error ''Failed to communicate with AI:'' ApiUrlNotDefined) s)
               \<lparr> isResponding := False \<rparr>, None)"
    by (simp add: sendToAI_def no_endpoint_try sendToAI_catch_def Let_def)
  with f assms(2) show ?thesis
    by (simp add: no_endpoint_calls stopRecording_cleared)
qed

theorem missing_endpoint_no_request_witness:
  "apiUrl (native_cfg\<lparr> apiUrl := None \<rparr>) = None \<and> recordingRef capturing_hook \<noteq> None
   \<and> filter is_request (calls (fst (stopRecording (native_cfg\<lparr> apiUrl := None \<rparr>) stop_ok capturing_hook))) = []
   \<and> \<not> isResponding (fst (stopRecording (native_cfg\<lparr> apiUrl := None \<rparr>) stop_ok capturing_hook))"
  using missing_endpoint_no_request [of "native_cfg\<lparr> apiUrl := None \<rparr>" capturing_hook stop_ok "''rec''"]
  by (simp add: capturing_hook_eq)

text \<open>
  Claim C9, as the code has it. When the callers never call \<open>stopRecording\<close> while an
  earlier \<open>stopRecording\<close> is still suspended (calls of \<open>startRecording\<close> may overlap
  anything), then in every reachable configuration at most one \<open>Sound\<close> is loaded, it is
  the one held in \<open>soundRef\<close>, and whenever \<open>Sound.createAsync\<close> is awaited nothing is
  loaded: the sound held before has been unloaded first.
\<close>

theorem one_sound_loaded:
  assumes "reach cfg one_stop_at_a_time c"
  shows "length (loaded (st c)) \<le> 1
       \<and> set (loaded (st c)) \<subseteq> set_option (soundRef (st c))
       \<and> (\<forall>env f. Send_create env f \<in> set (tasks c) \<longrightarrow> loaded (st c) = [])"
proof -
  note inv = reach_single_sound [OF assms]
  have "length (loaded (st c)) \<le> 1"
  proof (cases "soundRef (st c)")
    case None
    with inv show ?thesis
      by (simp add: single_sound_def)
  next
    case (Some h)
    with inv have "set (loaded (st c)) \<subseteq> {h}" and d: "distinct (loaded (st c))"
      by (simp_all add: single_sound_def)
    then have "card (set (loaded (st c))) \<le> card {h}"
      by (intro card_mono) simp_all
    with d show ?thesis
      by (simp add: distinct_card)
  qed
  with inv show ?thesis
    by (simp add: single_sound_def)
qed

theorem one_sound_loaded_witness:
  "reach native_cfg one_stop_at_a_time reloading_config
   \<and> Send_create stop_ok ''cache/response.mp3'' \<in> set (tasks reloading_config)
   \<and> count_list (calls (st reloading_config)) (SoundUnload 1) = 1
   \<and> soundRef (st reloading_config) = Some 1 \<and> loaded (st reloading_config) = []
   \<and> reach native_cfg one_stop_at_a_time replayed_config
   \<and> soundRef (st replayed_config) = Some 3 \<and> loaded (st replayed_config) = [3]
   \<and> length (loaded (st replayed_config)) \<le> 1
   \<and> set (loaded (st replayed_config)) \<subseteq> set_option (soundRef (st replayed_config))"
proof -
  have t: "Send_create stop_ok ''cache/response.mp3'' \<in> set (tasks reloading_config)"
    by (simp add: reloading_config_eq)
  with one_sound_loaded [OF reach_reloading]
  have "loaded (st reloading_config) = []"
    by blast
  with t reach_reloading reach_replayed one_sound_loaded [OF reach_replayed]
    reloading_config_eq replayed_config_eq
  show ?thesis
    by blast
qed

text \<open>
  Claim C9 as stated speaks of every sequence of interactions. When a second
  interaction is started and stopped while the first still awaits its reply, each
  \<open>sendToAI\<close> finds \<open>soundRef\<close> empty, unloads nothing and creates its own sound: two are
  loaded at once, and only the later one is held in \<open>soundRef\<close>.
\<close>

theorem two_sounds_loaded_counterexample:
  "reach native_cfg anytime two_sounds_config
   \<and> count_list (calls (st two_sounds_config)) (StopAndUnload 0) = 1
   \<and> count_list (calls (st two_sounds_config)) (StopAndUnload 1) = 1
   \<and> loaded (st two_sounds_config) = [2, 3]
   \<and> soundRef (st two_sounds_config) = Some 3
   \<and> \<not> length (loaded (st two_sounds_config)) \<le> 1"
proof -
  have "\<not> length (loaded (st two_sounds_config)) \<le> 1"
    by (simp add: two_sounds_config_eq)
  with reach_two_sounds two_sounds_config_eq show ?thesis
    by blast
qed



end
